theory Spec2Isabelle
  imports Complex_Main "HOL-Library.Multiset"
begin

section \<open>Data model (src/types/index.ts)\<close>

text \<open>
  Identifiers are opaque strings. A JavaScript \<open>number\<close> that holds money or an
  average is modelled as an exact rational (\<open>rat\<close>); a \<open>number\<close> that holds a count
  (quantity, totalReviews, a star rating) is a natural number. Rounding of IEEE doubles
  is outside this embedding. Timestamps (\<open>createdAt\<close>, \<open>updatedAt\<close>), the random
  \<open>orderNumber\<close> and the descriptive fields no operation below reads are left out of
  the records.
\<close>

type_synonym id = string

datatype OrderStatus = pending | confirmed | preparing | ready | delivered | cancelled

datatype PaymentMethod = online | cash_on_delivery

datatype PaymentStatus = payment_pending | paid | failed

record User =
  user_displayName :: "string option"
  user_phone :: "string option"
  user_locationAddress :: "string option"

record AuthUser =
  au_id :: id
  au_displayName :: "string option"
  au_profile :: "User option"

record Seller =
  seller_id :: id
  seller_userId :: id
  seller_ratingAverage :: rat
  seller_totalReviews :: nat
  seller_totalOrders :: nat
  seller_totalEarnings :: rat

record Product =
  product_id :: id
  product_sellerId :: id
  product_title :: string
  product_price :: rat
  product_isAvailable :: string
  product_stockQuantity :: nat
  product_ratingAverage :: rat
  product_totalReviews :: nat

record CartItem =
  cart_id :: id
  cart_userId :: id
  cart_productId :: id
  cart_quantity :: nat

text \<open>\<open>CartItemWithProduct extends CartItem { product?: Product }\<close>\<close>

record CartItemWithProduct = CartItem +
  cart_product :: "Product option"

record Order =
  order_id :: id
  order_userId :: id
  order_sellerId :: id
  order_buyerName :: string
  order_buyerPhone :: string
  order_deliveryAddress :: string
  order_totalAmount :: rat
  order_status :: OrderStatus
  order_paymentMethod :: PaymentMethod
  order_paymentStatus :: PaymentStatus

record OrderItem =
  item_id :: id
  item_userId :: id
  item_orderId :: id
  item_productId :: id
  item_productTitle :: string
  item_productPrice :: rat
  item_quantity :: nat
  item_subtotal :: rat

text \<open>\<open>OrderWithItems extends Order { items?: OrderItem[] }\<close>\<close>

record OrderWithItems = Order +
  order_items :: "OrderItem list option"

record Review =
  review_id :: id
  review_userId :: id
  review_orderId :: id
  review_productId :: id
  review_sellerId :: id
  review_rating :: nat
  review_comment :: string

section \<open>The persistent store client (\<open>blink.db\<close>)\<close>

text \<open>
  The store is an external service: the repository only calls it. It is modelled as one
  list of records per collection (\<open>products_tbl\<close>, \<open>cart_tbl\<close>, ...), in insertion
  order. Every call to the store either
  throws (and then changes nothing) or succeeds; which calls throw is decided by the
  fault script \<open>faults\<close>: each call consumes its head, \<open>True\<close> meaning that this call
  throws, and an exhausted script means that every further call succeeds. The store
  gives each created record a new id \<open>id_gen n\<close>, where \<open>n\<close> counts the records created
  so far. \<open>createMany\<close> stores all its records or none; \<open>update\<close> changes the fields
  it is given on the record with the given id and throws when the collection has no
  record with that id; \<open>list\<close> returns the matching records in insertion order. Filters and field
  updates are passed as functions.
\<close>

datatype error = StoreError | TypeError

record store =
  products_tbl :: "Product list"
  sellers_tbl :: "Seller list"
  cart_tbl :: "CartItem list"
  orders_tbl :: "Order list"
  orderItems_tbl :: "OrderItem list"
  reviews_tbl :: "Review list"
  next_id :: nat
  id_gen :: "nat \<Rightarrow> id"
  faults :: "bool list"

definition db_call :: "store \<Rightarrow> bool \<times> store" where
  "db_call s = (case faults s of [] \<Rightarrow> (True, s) | f # fs \<Rightarrow> (\<not> f, s\<lparr>faults := fs\<rparr>))"

definition db_products_get :: "id \<Rightarrow> store \<Rightarrow> (error + Product option) \<times> store" where
  "db_products_get pid s =
     (case db_call s of
        (False, s') \<Rightarrow> (Inl StoreError, s')
      | (True, s') \<Rightarrow> (Inr (find (\<lambda>p. product_id p = pid) (products_tbl s')), s'))"

definition db_products_update :: "id \<Rightarrow> (Product \<Rightarrow> Product) \<Rightarrow> store \<Rightarrow> bool \<times> store" where
  "db_products_update pid f s =
     (case db_call s of
        (False, s') \<Rightarrow> (False, s')
      | (True, s') \<Rightarrow>
          if pid \<in> product_id ` set (products_tbl s')
          then (True, s'\<lparr>products_tbl :=
                           map (\<lambda>p. if product_id p = pid then f p else p) (products_tbl s')\<rparr>)
          else (False, s'))"

definition db_sellers_get :: "id \<Rightarrow> store \<Rightarrow> (error + Seller option) \<times> store" where
  "db_sellers_get sid s =
     (case db_call s of
        (False, s') \<Rightarrow> (Inl StoreError, s')
      | (True, s') \<Rightarrow> (Inr (find (\<lambda>x. seller_id x = sid) (sellers_tbl s')), s'))"

definition db_sellers_update :: "id \<Rightarrow> (Seller \<Rightarrow> Seller) \<Rightarrow> store \<Rightarrow> bool \<times> store" where
  "db_sellers_update sid f s =
     (case db_call s of
        (False, s') \<Rightarrow> (False, s')
      | (True, s') \<Rightarrow>
          if sid \<in> seller_id ` set (sellers_tbl s')
          then (True, s'\<lparr>sellers_tbl :=
                           map (\<lambda>x. if seller_id x = sid then f x else x) (sellers_tbl s')\<rparr>)
          else (False, s'))"

definition db_cart_list :: "(CartItem \<Rightarrow> bool) \<Rightarrow> store \<Rightarrow> (error + CartItem list) \<times> store" where
  "db_cart_list wh s =
     (case db_call s of
        (False, s') \<Rightarrow> (Inl StoreError, s')
      | (True, s') \<Rightarrow> (Inr (filter wh (cart_tbl s')), s'))"

definition db_cart_create :: "CartItem \<Rightarrow> store \<Rightarrow> bool \<times> store" where
  "db_cart_create draft s =
     (case db_call s of
        (False, s') \<Rightarrow> (False, s')
      | (True, s') \<Rightarrow>
          (True, s'\<lparr>cart_tbl := cart_tbl s' @ [draft\<lparr>cart_id := id_gen s' (next_id s')\<rparr>],
                     next_id := Suc (next_id s')\<rparr>))"

definition db_cart_update :: "id \<Rightarrow> (CartItem \<Rightarrow> CartItem) \<Rightarrow> store \<Rightarrow> bool \<times> store" where
  "db_cart_update cid f s =
     (case db_call s of
        (False, s') \<Rightarrow> (False, s')
      | (True, s') \<Rightarrow>
          if cid \<in> cart_id ` set (cart_tbl s')
          then (True, s'\<lparr>cart_tbl := map (\<lambda>c. if cart_id c = cid then f c else c) (cart_tbl s')\<rparr>)
          else (False, s'))"

definition db_cart_deleteMany :: "(CartItem \<Rightarrow> bool) \<Rightarrow> store \<Rightarrow> bool \<times> store" where
  "db_cart_deleteMany wh s =
     (case db_call s of
        (False, s') \<Rightarrow> (False, s')
      | (True, s') \<Rightarrow> (True, s'\<lparr>cart_tbl := filter (\<lambda>c. \<not> wh c) (cart_tbl s')\<rparr>))"

definition db_orders_create :: "Order \<Rightarrow> store \<Rightarrow> Order option \<times> store" where
  "db_orders_create draft s =
     (case db_call s of
        (False, s') \<Rightarrow> (None, s')
      | (True, s') \<Rightarrow>
          (let order = draft\<lparr>order_id := id_gen s' (next_id s')\<rparr>
           in (Some order, s'\<lparr>orders_tbl := orders_tbl s' @ [order], next_id := Suc (next_id s')\<rparr>)))"

definition db_orders_update :: "id \<Rightarrow> (Order \<Rightarrow> Order) \<Rightarrow> store \<Rightarrow> bool \<times> store" where
  "db_orders_update oid f s =
     (case db_call s of
        (False, s') \<Rightarrow> (False, s')
      | (True, s') \<Rightarrow>
          if oid \<in> order_id ` set (orders_tbl s')
          then (True, s'\<lparr>orders_tbl := map (\<lambda>x. if order_id x = oid then f x else x) (orders_tbl s')\<rparr>)
          else (False, s'))"

text \<open>\<open>createMany\<close> numbers the records it stores consecutively.\<close>

fun with_item_ids :: "(nat \<Rightarrow> id) \<Rightarrow> nat \<Rightarrow> OrderItem list \<Rightarrow> OrderItem list" where
  "with_item_ids g n [] = []"
| "with_item_ids g n (x # xs) = x\<lparr>item_id := g n\<rparr> # with_item_ids g (Suc n) xs"

definition db_orderItems_createMany :: "OrderItem list \<Rightarrow> store \<Rightarrow> bool \<times> store" where
  "db_orderItems_createMany records s =
     (case db_call s of
        (False, s') \<Rightarrow> (False, s')
      | (True, s') \<Rightarrow>
          (True, s'\<lparr>orderItems_tbl := orderItems_tbl s' @ with_item_ids (id_gen s') (next_id s') records,
                     next_id := next_id s' + length records\<rparr>))"

definition db_reviews_create :: "Review \<Rightarrow> store \<Rightarrow> bool \<times> store" where
  "db_reviews_create draft s =
     (case db_call s of
        (False, s') \<Rightarrow> (False, s')
      | (True, s') \<Rightarrow>
          (True, s'\<lparr>reviews_tbl := reviews_tbl s' @ [draft\<lparr>review_id := id_gen s' (next_id s')\<rparr>],
                     next_id := Suc (next_id s')\<rparr>))"

section \<open>Order placement (src/pages/Checkout.tsx)\<close>

subsection \<open>JavaScript objects used as dictionaries\<close>

text \<open>
  \<open>itemsBySeller\<close> is an object literal \<open>{}\<close> indexed by seller id. Its own properties
  are kept as an association list in creation order. Reading a key that is not an own
  property falls through to \<open>Object.prototype\<close>: for the names below the read yields a
  truthy value that has no \<open>push\<close>, so \<open>itemsBySeller[sellerId].push(item)\<close> throws a
  TypeError.
\<close>

definition object_prototype_keys :: "string list" where
  "object_prototype_keys =
     [''constructor'', ''__defineGetter__'', ''__defineSetter__'', ''hasOwnProperty'',
      ''__lookupGetter__'', ''__lookupSetter__'', ''isPrototypeOf'', ''propertyIsEnumerable'',
      ''toString'', ''valueOf'', ''__proto__'', ''toLocaleString'']"

fun push_item :: "id \<Rightarrow> 'a \<Rightarrow> (id \<times> 'a list) list \<Rightarrow> (id \<times> 'a list) list" where
  "push_item k x [] = [(k, [x])]"
| "push_item k x ((k', xs) # rest) =
     (if k = k' then (k', xs @ [x]) # rest else (k', xs) # push_item k x rest)"

text \<open>
  \<open>Object.entries\<close> lists the keys that are array indices (canonical decimal numerals
  up to \<open>2^32 - 2\<close>) first, in ascending numeric order, and then the other keys in
  creation order.
\<close>

definition is_digit :: "char \<Rightarrow> bool" where
  "is_digit c = (48 \<le> (of_char c :: nat) \<and> (of_char c :: nat) \<le> 57)"

definition dec_value :: "string \<Rightarrow> nat" where
  "dec_value k = foldl (\<lambda>n c. 10 * n + ((of_char c :: nat) - 48)) 0 k"

definition is_array_index :: "string \<Rightarrow> bool" where
  "is_array_index k =
     (k \<noteq> [] \<and> list_all is_digit k \<and> (k = ''0'' \<or> hd k \<noteq> CHR ''0'') \<and> dec_value k \<le> 4294967294)"

definition object_entries :: "(id \<times> 'a) list \<Rightarrow> (id \<times> 'a) list" where
  "object_entries obj =
     sort_key (\<lambda>e. dec_value (fst e)) (filter (\<lambda>e. is_array_index (fst e)) obj)
     @ filter (\<lambda>e. \<not> is_array_index (fst e)) obj"

subsection \<open>handlePlaceOrder\<close>

text \<open>\<open>item.product?.sellerId\<close>, when truthy.\<close>

definition line_sellerId :: "CartItemWithProduct \<Rightarrow> id option" where
  "line_sellerId item =
     (case cart_product item of
        None \<Rightarrow> None
      | Some p \<Rightarrow> if product_sellerId p = [] then None else Some (product_sellerId p))"

text \<open>\<open>item.product?.price || 0\<close> and \<open>item.product?.title || ''\<close>.\<close>

definition line_price :: "CartItemWithProduct \<Rightarrow> rat" where
  "line_price item = (case cart_product item of None \<Rightarrow> 0 | Some p \<Rightarrow> product_price p)"

definition line_title :: "CartItemWithProduct \<Rightarrow> string" where
  "line_title item = (case cart_product item of None \<Rightarrow> [] | Some p \<Rightarrow> product_title p)"

text \<open>The \<open>forEach\<close> that groups the cart lines by seller.\<close>

fun group_items ::
  "CartItemWithProduct list \<Rightarrow> (id \<times> CartItemWithProduct list) list
     \<Rightarrow> error + (id \<times> CartItemWithProduct list) list" where
  "group_items [] itemsBySeller = Inr itemsBySeller"
| "group_items (item # rest) itemsBySeller =
     (case line_sellerId item of
        None \<Rightarrow> group_items rest itemsBySeller
      | Some sellerId \<Rightarrow>
          if sellerId \<in> set object_prototype_keys \<and> sellerId \<notin> fst ` set itemsBySeller
          then Inl TypeError
          else group_items rest (push_item sellerId item itemsBySeller))"

text \<open>\<open>a || b\<close> on an optional string: \<open>undefined\<close> and the empty string are falsy.\<close>

definition or_else :: "string option \<Rightarrow> string \<Rightarrow> string" where
  "or_else a b = (case a of None \<Rightarrow> b | Some x \<Rightarrow> if x = [] then b else x)"

text \<open>\<open>user?.profile?.displayName || user?.displayName || 'Customer'\<close>\<close>

definition buyer_name :: "AuthUser \<Rightarrow> string" where
  "buyer_name user =
     or_else (case au_profile user of None \<Rightarrow> None | Some p \<Rightarrow> user_displayName p)
       (or_else (au_displayName user) ''Customer'')"

definition orderTotal :: "CartItemWithProduct list \<Rightarrow> rat" where
  "orderTotal items = foldl (\<lambda>acc item. acc + line_price item * of_nat (cart_quantity item)) 0 items"

definition new_order ::
  "AuthUser \<Rightarrow> string \<Rightarrow> string \<Rightarrow> PaymentMethod \<Rightarrow> id \<Rightarrow> CartItemWithProduct list \<Rightarrow> Order" where
  "new_order user phone address paymentMethod sellerId items =
     \<lparr>order_id = [],
      order_userId = au_id user,
      order_sellerId = sellerId,
      order_buyerName = buyer_name user,
      order_buyerPhone = phone,
      order_deliveryAddress = address,
      order_totalAmount = orderTotal items,
      order_status = pending,
      order_paymentMethod = paymentMethod,
      order_paymentStatus = (if paymentMethod = online then paid else payment_pending)\<rparr>"

definition new_order_item :: "AuthUser \<Rightarrow> id \<Rightarrow> CartItemWithProduct \<Rightarrow> OrderItem" where
  "new_order_item user orderId item =
     \<lparr>item_id = [],
      item_userId = au_id user,
      item_orderId = orderId,
      item_productId = cart_productId item,
      item_productTitle = line_title item,
      item_productPrice = line_price item,
      item_quantity = cart_quantity item,
      item_subtotal = line_price item * of_nat (cart_quantity item)\<rparr>"

text \<open>The loop over \<open>Object.entries(itemsBySeller)\<close>: the first store call that throws
  ends it, and what was written before stays.\<close>

fun place_orders ::
  "AuthUser \<Rightarrow> string \<Rightarrow> string \<Rightarrow> PaymentMethod \<Rightarrow> (id \<times> CartItemWithProduct list) list
     \<Rightarrow> store \<Rightarrow> error option \<times> store" where
  "place_orders user phone address paymentMethod [] s = (None, s)"
| "place_orders user phone address paymentMethod ((sellerId, items) # rest) s =
     (case db_orders_create (new_order user phone address paymentMethod sellerId items) s of
        (None, s1) \<Rightarrow> (Some StoreError, s1)
      | (Some order, s1) \<Rightarrow>
          (case db_orderItems_createMany (map (new_order_item user (order_id order)) items) s1 of
             (False, s2) \<Rightarrow> (Some StoreError, s2)
           | (True, s2) \<Rightarrow> place_orders user phone address paymentMethod rest s2))"

text \<open>
  The handlers below take the component state they read (\<open>user\<close>, \<open>cartItems\<close>,
  \<open>address\<close>, \<open>phone\<close>, \<open>paymentMethod\<close>) as arguments and return the store they
  leave. The checkout page fills \<open>cartItems\<close> only once \<open>user\<close> is set, so
  handlePlaceOrder is modelled for a signed-in user, for whom \<open>user?.id || ''\<close> is the
  user's id.

  What a handler did: \<open>Returned\<close> is an early \<open>return\<close> before the \<open>try\<close> block (or
  inside it, before any write), \<open>Done\<close> is the end of the \<open>try\<close> block (the success
  toast), \<open>Failed e\<close> is the \<open>catch\<close> block.
\<close>

datatype outcome = Returned | Done | Failed error

definition handlePlaceOrder ::
  "AuthUser \<Rightarrow> CartItemWithProduct list \<Rightarrow> string \<Rightarrow> string \<Rightarrow> PaymentMethod
     \<Rightarrow> store \<Rightarrow> outcome \<times> store" where
  "handlePlaceOrder user cartItems address phone paymentMethod s =
     (if address = [] \<or> phone = [] then (Returned, s)
      else
        case group_items cartItems [] of
          Inl e \<Rightarrow> (Failed e, s)
        | Inr itemsBySeller \<Rightarrow>
            (case place_orders user phone address paymentMethod (object_entries itemsBySeller) s of
               (Some e, s1) \<Rightarrow> (Failed e, s1)
             | (None, s1) \<Rightarrow>
                 (case db_cart_deleteMany (\<lambda>c. cart_userId c = au_id user) s1 of
                    (False, s2) \<Rightarrow> (Failed StoreError, s2)
                  | (True, s2) \<Rightarrow> (Done, s2))))"

subsection \<open>loadCart\<close>

text \<open>
  \<open>Promise.all(items.map(async item => ...))\<close> starts one \<open>products.get\<close> per cart row, in
  row order, and rejects when one of them throws; \<open>{ ...item, product }\<close> extends the row
  with the product found (\<open>null\<close> when the store has none).
\<close>

fun get_products :: "CartItem list \<Rightarrow> store \<Rightarrow> (error + CartItemWithProduct list) \<times> store" where
  "get_products [] s = (Inr [], s)"
| "get_products (item # rest) s =
     (case db_products_get (cart_productId item) s of
        (r, s1) \<Rightarrow>
          (case get_products rest s1 of
             (rs, s2) \<Rightarrow>
               ((case r of
                   Inl e \<Rightarrow> Inl e
                 | Inr product \<Rightarrow>
                     (case rs of
                        Inl e \<Rightarrow> Inl e
                      | Inr lines \<Rightarrow> Inr (CartItem.extend item \<lparr>cart_product = product\<rparr> # lines))),
                s2)))"

text \<open>The result is the new value of the component's \<open>cartItems\<close> state.\<close>

definition loadCart ::
  "AuthUser option \<Rightarrow> CartItemWithProduct list \<Rightarrow> store \<Rightarrow> CartItemWithProduct list \<times> store" where
  "loadCart user cartItems s =
     (case user of
        None \<Rightarrow> (cartItems, s)
      | Some u \<Rightarrow>
          (case db_cart_list (\<lambda>c. cart_userId c = au_id u) s of
             (Inl e, s1) \<Rightarrow> (cartItems, s1)
           | (Inr items, s1) \<Rightarrow>
               if items = [] then (cartItems, s1)
               else
                 (case get_products items s1 of
                    (Inl e, s2) \<Rightarrow> (cartItems, s2)
                  | (Inr itemsWithProducts, s2) \<Rightarrow> (itemsWithProducts, s2))))"

section \<open>Adding to the cart (ProductDetail, handleAddToCart)\<close>

text \<open>\<open>me\<close> is what \<open>blink.auth.me()\<close> gave: it throws, or returns the session user or
  nothing.\<close>

definition handleAddToCart ::
  "bool \<Rightarrow> Product option \<Rightarrow> nat \<Rightarrow> (error + AuthUser option) \<Rightarrow> store \<Rightarrow> outcome \<times> store" where
  "handleAddToCart isAuthenticated product quantity me s =
     (if \<not> isAuthenticated then (Returned, s)
      else
        case product of
          None \<Rightarrow> (Returned, s)
        | Some product \<Rightarrow>
            (case me of
               Inl e \<Rightarrow> (Failed e, s)
             | Inr None \<Rightarrow> (Returned, s)
             | Inr (Some m) \<Rightarrow>
                 if au_id m = [] then (Returned, s)
                 else
                   (case db_cart_list
                           (\<lambda>c. cart_userId c = au_id m \<and> cart_productId c = product_id product) s of
                      (Inl e, s1) \<Rightarrow> (Failed e, s1)
                    | (Inr [], s1) \<Rightarrow>
                        (case db_cart_create
                                \<lparr>cart_id = [], cart_userId = au_id m,
                                 cart_productId = product_id product, cart_quantity = quantity\<rparr> s1 of
                           (False, s2) \<Rightarrow> (Failed StoreError, s2)
                         | (True, s2) \<Rightarrow> (Done, s2))
                    | (Inr (existing0 # others), s1) \<Rightarrow>
                        (case db_cart_update (cart_id existing0)
                                (\<lambda>c. c\<lparr>cart_quantity := cart_quantity existing0 + quantity\<rparr>) s1 of
                           (False, s2) \<Rightarrow> (Failed StoreError, s2)
                         | (True, s2) \<Rightarrow> (Done, s2)))))"

text \<open>A sequence of calls for one signed-in user and one product, with the quantities
  chosen on the page.\<close>

fun addToCart_calls :: "AuthUser \<Rightarrow> Product \<Rightarrow> nat list \<Rightarrow> store \<Rightarrow> outcome list \<times> store" where
  "addToCart_calls user product [] s = ([], s)"
| "addToCart_calls user product (q # qs) s =
     (case handleAddToCart True (Some product) q (Inr (Some user)) s of
        (r, s1) \<Rightarrow>
          (case addToCart_calls user product qs s1 of (rs, s2) \<Rightarrow> (r # rs, s2)))"

section \<open>Order status (src/pages/SellerDashboard.tsx)\<close>

definition updateOrderStatus :: "id \<Rightarrow> OrderStatus \<Rightarrow> store \<Rightarrow> outcome \<times> store" where
  "updateOrderStatus orderId newStatus s =
     (case db_orders_update orderId (\<lambda>x. x\<lparr>order_status := newStatus\<rparr>) s of
        (False, s') \<Rightarrow> (Failed StoreError, s')
      | (True, s') \<Rightarrow> (Done, s'))"

text \<open>
  The buttons the dashboard renders on an order's card: each is the call
  \<open>updateOrderStatus(order.id, status)\<close> its \<open>onClick\<close> makes.
\<close>

definition status_buttons :: "Order \<Rightarrow> (id \<times> OrderStatus) list" where
  "status_buttons order =
     (if order_status order = pending then [(order_id order, confirmed)] else [])
     @ (if order_status order = confirmed then [(order_id order, preparing)] else [])
     @ (if order_status order = preparing then [(order_id order, ready)] else [])
     @ (if order_status order = ready then [(order_id order, delivered)] else [])"

section \<open>Reviews (ReviewPage, handleSubmit)\<close>

text \<open>The component's \<open>reviews\<close> state maps a product id to a rating and a comment;
  \<open>review.rating\<close> on a missing entry throws a TypeError.\<close>

definition new_review :: "AuthUser \<Rightarrow> OrderWithItems \<Rightarrow> OrderItem \<Rightarrow> nat \<times> string \<Rightarrow> Review" where
  "new_review user order item review =
     \<lparr>review_id = [],
      review_userId = au_id user,
      review_orderId = order_id order,
      review_productId = item_productId item,
      review_sellerId = order_sellerId order,
      review_rating = fst review,
      review_comment = snd review\<rparr>"

definition rate_product :: "Product \<Rightarrow> nat \<Rightarrow> Product \<Rightarrow> Product" where
  "rate_product product rating =
     (let newTotalReviews = product_totalReviews product + 1;
          newRatingAverage =
            (product_ratingAverage product * of_nat (product_totalReviews product) + of_nat rating)
              / of_nat newTotalReviews
      in (\<lambda>p. p\<lparr>product_ratingAverage := newRatingAverage, product_totalReviews := newTotalReviews\<rparr>))"

fun submit_items ::
  "AuthUser \<Rightarrow> OrderWithItems \<Rightarrow> (id \<rightharpoonup> nat \<times> string) \<Rightarrow> OrderItem list \<Rightarrow> store
     \<Rightarrow> error option \<times> store" where
  "submit_items user order reviews [] s = (None, s)"
| "submit_items user order reviews (item # rest) s =
     (case reviews (item_productId item) of
        None \<Rightarrow> (Some TypeError, s)
      | Some review \<Rightarrow>
          (case db_reviews_create (new_review user order item review) s of
             (False, s1) \<Rightarrow> (Some StoreError, s1)
           | (True, s1) \<Rightarrow>
               (case db_products_get (item_productId item) s1 of
                  (Inl e, s2) \<Rightarrow> (Some e, s2)
                | (Inr None, s2) \<Rightarrow> submit_items user order reviews rest s2
                | (Inr (Some product), s2) \<Rightarrow>
                    (case db_products_update (item_productId item)
                            (rate_product product (fst review)) s2 of
                       (False, s3) \<Rightarrow> (Some StoreError, s3)
                     | (True, s3) \<Rightarrow> submit_items user order reviews rest s3))))"

definition items_or_empty :: "OrderWithItems \<Rightarrow> OrderItem list" where
  "items_or_empty order = (case order_items order of None \<Rightarrow> [] | Some xs \<Rightarrow> xs)"

definition handleSubmit ::
  "OrderWithItems option \<Rightarrow> AuthUser option \<Rightarrow> (id \<rightharpoonup> nat \<times> string) \<Rightarrow> store
     \<Rightarrow> outcome \<times> store" where
  "handleSubmit order user reviews s =
     (case order of
        None \<Rightarrow> (Returned, s)
      | Some order \<Rightarrow>
          (case user of
             None \<Rightarrow> (Returned, s)
           | Some user \<Rightarrow>
               (case submit_items user order reviews (items_or_empty order) s of
                  (Some e, s1) \<Rightarrow> (Failed e, s1)
                | (None, s1) \<Rightarrow>
                    (case db_sellers_get (order_sellerId order) s1 of
                       (Inl e, s2) \<Rightarrow> (Failed e, s2)
                     | (Inr None, s2) \<Rightarrow> (Done, s2)
                     | (Inr (Some seller), s2) \<Rightarrow>
                         (let newTotalReviews =
                                seller_totalReviews seller + length (items_or_empty order)
                          in case db_sellers_update (order_sellerId order)
                                    (\<lambda>x. x\<lparr>seller_totalReviews := newTotalReviews\<rparr>) s2 of
                               (False, s3) \<Rightarrow> (Failed StoreError, s3)
                             | (True, s3) \<Rightarrow> (Done, s3))))))"

section \<open>Vocabulary of the properties\<close>

text \<open>
  The seller ids a cart resolves to, the part of a cart line and of an order item that a
  line consists of (product, quantity, price), and what a run of a handler added to the
  \<open>orders\<close> and \<open>orderItems\<close> collections.
\<close>

definition seller_ids :: "CartItemWithProduct list \<Rightarrow> id set" where
  "seller_ids cartItems = set (List.map_filter line_sellerId cartItems)"

definition line_of_cart :: "CartItemWithProduct \<Rightarrow> id \<times> nat \<times> rat" where
  "line_of_cart l = (cart_productId l, cart_quantity l, line_price l)"

definition line_of_item :: "OrderItem \<Rightarrow> id \<times> nat \<times> rat" where
  "line_of_item i = (item_productId i, item_quantity i, item_productPrice i)"

definition orders_created :: "store \<Rightarrow> store \<Rightarrow> Order list" where
  "orders_created s s' = drop (length (orders_tbl s)) (orders_tbl s')"

definition orderItems_created :: "store \<Rightarrow> store \<Rightarrow> OrderItem list" where
  "orderItems_created s s' = drop (length (orderItems_tbl s)) (orderItems_tbl s')"

text \<open>The values stored under one key of an object.\<close>

definition bucket :: "(id \<times> 'a list) list \<Rightarrow> id \<Rightarrow> 'a list" where
  "bucket obj k = concat (map snd (filter (\<lambda>e. fst e = k) obj))"

text \<open>
  The orders, each with its items, that the loop of handlePlaceOrder writes when no store
  call throws, given the id generator and the number of records created before.
\<close>

fun created ::
  "AuthUser \<Rightarrow> string \<Rightarrow> string \<Rightarrow> PaymentMethod \<Rightarrow> (nat \<Rightarrow> id) \<Rightarrow> nat
     \<Rightarrow> (id \<times> CartItemWithProduct list) list \<Rightarrow> (Order \<times> OrderItem list) list" where
  "created u ph ad pm g n [] = []"
| "created u ph ad pm g n ((k, items) # rest) =
     ((new_order u ph ad pm k items)\<lparr>order_id := g n\<rparr>,
      with_item_ids g (Suc n) (map (new_order_item u (g n)) items))
     # created u ph ad pm g (Suc n + length items) rest"

definition consistent :: "Order \<times> OrderItem list \<Rightarrow> bool" where
  "consistent p =
     ((\<forall>i \<in> set (snd p). item_orderId i = order_id (fst p)) \<and>
      sum_list (map item_subtotal (snd p)) = order_totalAmount (fst p))"

text \<open>
  What the loop of handlePlaceOrder has written when it ends with \<open>r\<close>, whatever \<open>r\<close> is:
  the new orders, each with the items stored for it. Every order has the items that sum
  to its total, but for the last one when the call that stores its items threw.
\<close>

definition written ::
  "store \<Rightarrow> error option \<Rightarrow> store \<Rightarrow> (Order \<times> OrderItem list) list \<Rightarrow> bool" where
  "written s r s' ps =
     (orders_tbl s' = orders_tbl s @ map fst ps \<and>
      orderItems_tbl s' = orderItems_tbl s @ concat (map snd ps) \<and>
      (\<forall>p \<in> set ps. \<exists>m \<ge> next_id s. order_id (fst p) = id_gen s m) \<and>
      (\<forall>p \<in> set ps. \<forall>i \<in> set (snd p).
         item_orderId i = order_id (fst p) \<and>
         item_subtotal i = item_productPrice i * of_nat (item_quantity i)) \<and>
      (\<forall>p \<in> set ps.
         sum_list (map item_subtotal (snd p)) = order_totalAmount (fst p) \<or>
         (r = Some StoreError \<and> p = last ps \<and> snd p = [])))"

text \<open>The cart rows of one user for one product.\<close>

definition in_cart :: "AuthUser \<Rightarrow> Product \<Rightarrow> store \<Rightarrow> CartItem list" where
  "in_cart user product s =
     filter (\<lambda>c. cart_userId c = au_id user \<and> cart_productId c = product_id product) (cart_tbl s)"

section \<open>Example data\<close>

text \<open>
  A shop with two sellers and one product each, and a buyer whose cart holds two units of
  product A (100 each) and one unit of product B (50).
\<close>

definition demo_gen :: "nat \<Rightarrow> id" where
  "demo_gen n = ''rec_'' @ replicate n (CHR ''x'')"

definition buyer :: AuthUser where
  "buyer = \<lparr>au_id = ''buyer1'', au_displayName = Some ''Asha'', au_profile = None\<rparr>"

definition guest :: AuthUser where
  "guest = \<lparr>au_id = ''buyer2'', au_displayName = None, au_profile = None\<rparr>"

definition productA :: Product where
  "productA = \<lparr>product_id = ''productA'', product_sellerId = ''seller1'', product_title = ''Mango pickle'',
     product_price = 100, product_isAvailable = ''1'', product_stockQuantity = 5,
     product_ratingAverage = 4, product_totalReviews = 2\<rparr>"

definition productB :: Product where
  "productB = \<lparr>product_id = ''productB'', product_sellerId = ''seller2'', product_title = ''Clay cup'',
     product_price = 50, product_isAvailable = ''1'', product_stockQuantity = 9,
     product_ratingAverage = 0, product_totalReviews = 0\<rparr>"

definition seller1 :: Seller where
  "seller1 = \<lparr>seller_id = ''seller1'', seller_userId = ''user7'', seller_ratingAverage = 4,
     seller_totalReviews = 2, seller_totalOrders = 0, seller_totalEarnings = 0\<rparr>"

definition seller2 :: Seller where
  "seller2 = \<lparr>seller_id = ''seller2'', seller_userId = ''user8'', seller_ratingAverage = 0,
     seller_totalReviews = 0, seller_totalOrders = 0, seller_totalEarnings = 0\<rparr>"

definition rowA :: CartItem where
  "rowA = \<lparr>cart_id = ''cartA'', cart_userId = ''buyer1'', cart_productId = ''productA'', cart_quantity = 2\<rparr>"

definition rowB :: CartItem where
  "rowB = \<lparr>cart_id = ''cartB'', cart_userId = ''buyer1'', cart_productId = ''productB'', cart_quantity = 1\<rparr>"

definition rowGone :: CartItem where
  "rowGone = \<lparr>cart_id = ''cartC'', cart_userId = ''buyer1'', cart_productId = ''productC'', cart_quantity = 3\<rparr>"

definition shop :: store where
  "shop = \<lparr>products_tbl = [productA, productB], sellers_tbl = [seller1, seller2],
     cart_tbl = [rowA, rowB], orders_tbl = [], orderItems_tbl = [], reviews_tbl = [],
     next_id = 0, id_gen = demo_gen, faults = []\<rparr>"

definition shop_cartItems :: "CartItemWithProduct list" where
  "shop_cartItems = fst (loadCart (Some buyer) [] shop)"

definition shop_after :: store where
  "shop_after = snd (handlePlaceOrder buyer shop_cartItems ''12 Lake Road'' ''5550100'' online shop)"

text \<open>The same shop when the second store call throws, and when the cart still holds a
  row for a product that is no longer in the store.\<close>

definition flaky_shop :: store where
  "flaky_shop = shop\<lparr>faults := [False, True]\<rparr>"

definition stale_shop :: store where
  "stale_shop = shop\<lparr>cart_tbl := [rowA, rowGone]\<rparr>"

definition stale_cartItems :: "CartItemWithProduct list" where
  "stale_cartItems = fst (loadCart (Some buyer) [] stale_shop)"

text \<open>The run in which the items of the first order cannot be stored, and the shop in
  which the first order is stored whole and the items of the second cannot.\<close>

definition flaky_after :: store where
  "flaky_after = snd (handlePlaceOrder buyer shop_cartItems ''12 Lake Road'' ''5550100'' online flaky_shop)"

definition late_flaky_shop :: store where
  "late_flaky_shop = shop\<lparr>faults := [False, False, False, True]\<rparr>"

definition late_flaky_after :: store where
  "late_flaky_after =
     snd (handlePlaceOrder buyer shop_cartItems ''12 Lake Road'' ''5550100'' online late_flaky_shop)"

text \<open>A delivered order of the buyer, as the seller dashboard and the review page load
  it, and the rating the buyer chose.\<close>

definition delivered_order :: Order where
  "delivered_order = \<lparr>order_id = ''order1'', order_userId = ''buyer1'', order_sellerId = ''seller1'',
     order_buyerName = ''Asha'', order_buyerPhone = ''5550100'', order_deliveryAddress = ''12 Lake Road'',
     order_totalAmount = 200, order_status = delivered, order_paymentMethod = online,
     order_paymentStatus = paid\<rparr>"

text \<open>The card of that order in a dashboard that loaded it while it was pending.\<close>

definition stale_card :: Order where
  "stale_card = delivered_order\<lparr>order_status := pending\<rparr>"

definition delivered_item :: OrderItem where
  "delivered_item = \<lparr>item_id = ''item1'', item_userId = ''buyer1'', item_orderId = ''order1'',
     item_productId = ''productA'', item_productTitle = ''Mango pickle'', item_productPrice = 100,
     item_quantity = 2, item_subtotal = 200\<rparr>"

definition dashboard :: store where
  "dashboard = shop\<lparr>cart_tbl := [], orders_tbl := [delivered_order], orderItems_tbl := [delivered_item]\<rparr>"

definition review_order :: OrderWithItems where
  "review_order = Order.extend delivered_order \<lparr>order_items = Some [delivered_item]\<rparr>"

definition ratings :: "id \<rightharpoonup> nat \<times> string" where
  "ratings = [''productA'' \<mapsto> (5, ''Lovely'')]"

definition reviewed :: store where
  "reviewed = snd (handleSubmit (Some review_order) (Some buyer) ratings dashboard)"

section \<open>The store client\<close>

lemmas store_ops = db_call_def db_products_get_def db_products_update_def db_sellers_get_def
  db_sellers_update_def db_cart_list_def db_cart_create_def db_cart_update_def db_cart_deleteMany_def
  db_orders_create_def db_orders_update_def db_orderItems_createMany_def db_reviews_create_def

lemmas demo = shop_def buyer_def productA_def productB_def seller1_def seller2_def rowA_def rowB_def
  demo_gen_def

lemma notin_tl: "x \<notin> set xs \<Longrightarrow> x \<notin> set (tl xs)"
  by (cases xs) auto

lemma db_call_cases:
  "db_call s = (b, s') \<Longrightarrow> s' = s\<lparr>faults := tl (faults s)\<rparr> \<and> (True \<notin> set (faults s) \<longrightarrow> b)"
  by (auto simp: db_call_def split: list.splits)

lemma db_call_ok: "True \<notin> set (faults s) \<Longrightarrow> db_call s = (True, s\<lparr>faults := tl (faults s)\<rparr>)"
  by (auto simp: db_call_def split: list.splits)

lemma db_orders_create_None:
  "db_orders_create d s = (None, s') \<Longrightarrow> s' = s\<lparr>faults := tl (faults s)\<rparr>"
  by (auto simp: db_orders_create_def Let_def split: prod.splits bool.splits dest: db_call_cases)

lemma db_orders_create_Some:
  "db_orders_create d s = (Some order, s') \<Longrightarrow>
     order = d\<lparr>order_id := id_gen s (next_id s)\<rparr> \<and>
     s' = s\<lparr>faults := tl (faults s), orders_tbl := orders_tbl s @ [order], next_id := Suc (next_id s)\<rparr>"
  by (auto simp: db_orders_create_def Let_def split: prod.splits bool.splits dest: db_call_cases)

lemma db_orders_create_ok:
  "True \<notin> set (faults s) \<Longrightarrow>
     \<exists>order s'. db_orders_create d s = (Some order, s') \<and> True \<notin> set (faults s')"
  by (simp add: db_orders_create_def db_call_ok Let_def notin_tl)

lemma db_orderItems_createMany_False:
  "db_orderItems_createMany xs s = (False, s') \<Longrightarrow> s' = s\<lparr>faults := tl (faults s)\<rparr>"
  by (auto simp: db_orderItems_createMany_def split: prod.splits bool.splits dest: db_call_cases)

lemma db_orderItems_createMany_True:
  "db_orderItems_createMany xs s = (True, s') \<Longrightarrow>
     s' = s\<lparr>faults := tl (faults s),
            orderItems_tbl := orderItems_tbl s @ with_item_ids (id_gen s) (next_id s) xs,
            next_id := next_id s + length xs\<rparr>"
  by (auto simp: db_orderItems_createMany_def split: prod.splits bool.splits dest: db_call_cases)

lemma db_orderItems_createMany_ok:
  "True \<notin> set (faults s) \<Longrightarrow>
     \<exists>s'. db_orderItems_createMany xs s = (True, s') \<and> True \<notin> set (faults s')"
  by (simp add: db_orderItems_createMany_def db_call_ok notin_tl)

lemma db_cart_deleteMany_False:
  "db_cart_deleteMany wh s = (False, s') \<Longrightarrow> s' = s\<lparr>faults := tl (faults s)\<rparr>"
  by (auto simp: db_cart_deleteMany_def split: prod.splits bool.splits dest: db_call_cases)

lemma db_cart_deleteMany_True:
  "db_cart_deleteMany wh s = (True, s') \<Longrightarrow>
     s' = s\<lparr>faults := tl (faults s), cart_tbl := filter (\<lambda>c. \<not> wh c) (cart_tbl s)\<rparr>"
  by (auto simp: db_cart_deleteMany_def split: prod.splits bool.splits dest: db_call_cases)

lemma db_cart_deleteMany_ok:
  "True \<notin> set (faults s) \<Longrightarrow>
     \<exists>s'. db_cart_deleteMany wh s = (True, s') \<and> True \<notin> set (faults s')"
  by (simp add: db_cart_deleteMany_def db_call_ok notin_tl)

lemma db_cart_list_ok:
  "True \<notin> set (faults s) \<Longrightarrow> db_cart_list wh s = (Inr (filter wh (cart_tbl s)), s\<lparr>faults := tl (faults s)\<rparr>)"
  by (simp add: db_cart_list_def db_call_ok)

lemma db_cart_create_ok:
  "True \<notin> set (faults s) \<Longrightarrow>
     db_cart_create d s =
       (True, s\<lparr>faults := tl (faults s), cart_tbl := cart_tbl s @ [d\<lparr>cart_id := id_gen s (next_id s)\<rparr>],
                next_id := Suc (next_id s)\<rparr>)"
  by (simp add: db_cart_create_def db_call_ok)

lemma db_cart_update_ok:
  "True \<notin> set (faults s) \<Longrightarrow> cid \<in> cart_id ` set (cart_tbl s) \<Longrightarrow>
     db_cart_update cid f s =
       (True, s\<lparr>faults := tl (faults s),
                cart_tbl := map (\<lambda>c. if cart_id c = cid then f c else c) (cart_tbl s)\<rparr>)"
  by (simp add: db_cart_update_def db_call_ok)

lemma db_reviews_create_cases:
  "db_reviews_create d s = (b, s') \<Longrightarrow>
     products_tbl s' = products_tbl s \<and> sellers_tbl s' = sellers_tbl s"
  by (auto simp: db_reviews_create_def split: prod.splits bool.splits dest: db_call_cases)


lemma db_products_get_cases:
  "db_products_get pid s = (r, s') \<Longrightarrow>
     products_tbl s' = products_tbl s \<and> sellers_tbl s' = sellers_tbl s"
  by (auto simp: db_products_get_def split: prod.splits bool.splits dest: db_call_cases)


lemma db_products_update_cases:
  "db_products_update pid f s = (b, s') \<Longrightarrow> sellers_tbl s' = sellers_tbl s"
  by (auto simp: db_products_update_def split: prod.splits bool.splits if_splits dest: db_call_cases)


lemma db_sellers_get_cases:
  "db_sellers_get sid s = (r, s') \<Longrightarrow>
     sellers_tbl s' = sellers_tbl s \<and>
     (\<forall>found. r = Inr found \<longrightarrow> found = find (\<lambda>x. seller_id x = sid) (sellers_tbl s))"
  by (auto simp: db_sellers_get_def split: prod.splits bool.splits dest: db_call_cases)

lemma db_sellers_update_cases:
  "db_sellers_update sid f s = (b, s') \<Longrightarrow>
     sellers_tbl s' = (if b then map (\<lambda>x. if seller_id x = sid then f x else x) (sellers_tbl s)
                       else sellers_tbl s)"
  by (auto simp: db_sellers_update_def split: prod.splits bool.splits if_splits dest: db_call_cases)

section \<open>Grouping the cart by seller\<close>

lemma seller_ids_Nil [simp]: "seller_ids [] = {}"
  by (simp add: seller_ids_def map_filter_simps)

lemma seller_ids_Cons:
  "seller_ids (l # ls) = (case line_sellerId l of None \<Rightarrow> seller_ids ls | Some k \<Rightarrow> insert k (seller_ids ls))"
  by (simp add: seller_ids_def map_filter_simps split: option.splits)

lemma push_item_keys:
  "map fst (push_item k x obj) = (if k \<in> fst ` set obj then map fst obj else map fst obj @ [k])"
  by (induction obj) force+

lemma push_item_mset:
  "mset (concat (map snd (push_item k x obj))) = add_mset x (mset (concat (map snd obj)))"
  by (induction obj) auto

lemma bucket_Nil [simp]: "bucket [] k = []"
  by (simp add: bucket_def)

lemma bucket_absent: "k \<notin> fst ` set obj \<Longrightarrow> bucket obj k = []"
  by (induction obj) (auto simp: bucket_def)

lemma push_item_bucket:
  "distinct (map fst obj) \<Longrightarrow>
     bucket (push_item k x obj) k' = bucket obj k' @ (if k' = k then [x] else [])"
proof (induction obj)
  case Nil
  then show ?case by (simp add: bucket_def)
next
  case (Cons e obj)
  obtain k0 v0 where e: "e = (k0, v0)" by (cases e)
  show ?case
  proof (cases "k = k0")
    case True
    then have "filter (\<lambda>e. fst e = k0) obj = []"
      using Cons.prems by (auto simp: e filter_empty_conv)
    then show ?thesis using True by (simp add: e bucket_def)
  next
    case False
    then show ?thesis using Cons by (auto simp: e bucket_def)
  qed
qed

lemma bucket_distinct:
  "distinct (map fst obj) \<Longrightarrow> (k, v) \<in> set obj \<Longrightarrow> bucket obj k = v"
proof (induction obj)
  case Nil
  then show ?case by simp
next
  case (Cons e obj)
  show ?case
  proof (cases "e = (k, v)")
    case True
    have "filter (\<lambda>e. fst e = k) obj = []"
      using Cons.prems(1) True by (auto simp: filter_empty_conv)
    then show ?thesis by (simp add: bucket_def True)
  next
    case False
    with Cons.prems have in_rest: "(k, v) \<in> set obj" by simp
    then have "k \<in> fst ` set obj" by force
    then have "fst e \<noteq> k" using Cons.prems(1) by auto
    then show ?thesis using Cons.IH in_rest Cons.prems(1) by (simp add: bucket_def)
  qed
qed

lemma group_items_keys:
  "group_items xs acc = Inr obj \<Longrightarrow> fst ` set obj = fst ` set acc \<union> seller_ids xs"
proof (induction xs arbitrary: acc)
  case Nil
  then show ?case by simp
next
  case (Cons l ls)
  show ?case
  proof (cases "line_sellerId l")
    case None
    with Cons show ?thesis by (simp add: seller_ids_Cons)
  next
    case (Some k)
    with Cons.prems have "group_items ls (push_item k l acc) = Inr obj"
      by (simp split: if_splits)
    from Cons.IH [OF this] have "fst ` set obj = set (map fst (push_item k l acc)) \<union> seller_ids ls"
      by simp
    then show ?thesis
      by (auto simp: push_item_keys seller_ids_Cons Some)
  qed
qed

lemma group_items_distinct:
  "group_items xs acc = Inr obj \<Longrightarrow> distinct (map fst acc) \<Longrightarrow> distinct (map fst obj)"
proof (induction xs arbitrary: acc)
  case Nil
  then show ?case by simp
next
  case (Cons l ls)
  show ?case
  proof (cases "line_sellerId l")
    case None
    with Cons show ?thesis by simp
  next
    case (Some k)
    with Cons.prems have g: "group_items ls (push_item k l acc) = Inr obj"
      by (simp split: if_splits)
    have "distinct (map fst (push_item k l acc))"
      using Cons.prems(2) by (simp add: push_item_keys)
    from Cons.IH [OF g this] show ?thesis .
  qed
qed

lemma group_items_mset:
  "group_items xs acc = Inr obj \<Longrightarrow>
     mset (concat (map snd obj))
       = mset (concat (map snd acc)) + mset (filter (\<lambda>l. line_sellerId l \<noteq> None) xs)"
proof (induction xs arbitrary: acc)
  case Nil
  then show ?case by simp
next
  case (Cons l ls)
  show ?case
  proof (cases "line_sellerId l")
    case None
    with Cons show ?thesis by simp
  next
    case (Some k)
    with Cons.prems have g: "group_items ls (push_item k l acc) = Inr obj"
      by (simp split: if_splits)
    from Cons.IH [OF g] show ?thesis by (simp add: push_item_mset Some)
  qed
qed

lemma group_items_bucket:
  "group_items xs acc = Inr obj \<Longrightarrow> distinct (map fst acc) \<Longrightarrow>
     bucket obj k = bucket acc k @ filter (\<lambda>l. line_sellerId l = Some k) xs"
proof (induction xs arbitrary: acc)
  case Nil
  then show ?case by simp
next
  case (Cons l ls)
  show ?case
  proof (cases "line_sellerId l")
    case None
    with Cons show ?thesis by simp
  next
    case (Some k')
    with Cons.prems have g: "group_items ls (push_item k' l acc) = Inr obj"
      by (simp split: if_splits)
    have "distinct (map fst (push_item k' l acc))"
      using Cons.prems(2) by (simp add: push_item_keys)
    from Cons.IH [OF g this] show ?thesis
      using Cons.prems(2) by (auto simp add: push_item_bucket Some)
  qed
qed

lemma group_items_ok:
  "\<forall>k \<in> seller_ids xs. k \<notin> set object_prototype_keys \<Longrightarrow> \<exists>obj. group_items xs acc = Inr obj"
proof (induction xs arbitrary: acc)
  case Nil
  then show ?case by simp
next
  case (Cons l ls)
  then show ?case
    by (cases "line_sellerId l") (auto simp: seller_ids_Cons)
qed

lemma object_entries_mset: "mset (object_entries obj) = mset obj"
  by (simp add: object_entries_def)

lemma concat_mset_cong:
  assumes "mset xs = mset ys"
  shows "mset (concat (map f xs)) = mset (concat (map f ys))"
proof -
  have "mset (concat (map f zs)) = sum_mset (image_mset (\<lambda>z. mset (f z)) (mset zs))" for zs
    by (induction zs) auto
  then show ?thesis using assms by simp
qed

lemma placed_entries:
  assumes "group_items cartItems [] = Inr obj"
  shows "fst ` set (object_entries obj) = seller_ids cartItems"
    and "distinct (map fst (object_entries obj))"
    and "length (object_entries obj) = card (seller_ids cartItems)"
    and "mset (concat (map snd (object_entries obj)))
           = mset (filter (\<lambda>l. line_sellerId l \<noteq> None) cartItems)"
    and "e \<in> set (object_entries obj) \<Longrightarrow>
           snd e = filter (\<lambda>l. line_sellerId l = Some (fst e)) cartItems"
proof -
  have m: "mset (object_entries obj) = mset obj" by (rule object_entries_mset)
  have s: "set (object_entries obj) = set obj" using m by (rule mset_eq_setD)
  have keys: "fst ` set obj = seller_ids cartItems"
    using group_items_keys [OF assms] by simp
  have d: "distinct (map fst obj)"
    using group_items_distinct [OF assms] by simp
  show "fst ` set (object_entries obj) = seller_ids cartItems" using s keys by simp
  have "mset (map fst (object_entries obj)) = mset (map fst obj)" using m by simp
  then show d': "distinct (map fst (object_entries obj))"
    using d mset_eq_imp_distinct_iff by blast
  have "length (object_entries obj) = length (map fst obj)"
    using m mset_eq_length by fastforce
  also have "\<dots> = card (set (map fst obj))" using distinct_card [OF d] by simp
  finally show "length (object_entries obj) = card (seller_ids cartItems)" using keys by simp
  have "mset (concat (map snd (object_entries obj))) = mset (concat (map snd obj))"
    using m by (rule concat_mset_cong)
  then show "mset (concat (map snd (object_entries obj)))
           = mset (filter (\<lambda>l. line_sellerId l \<noteq> None) cartItems)"
    using group_items_mset [OF assms] by simp
  show "snd e = filter (\<lambda>l. line_sellerId l = Some (fst e)) cartItems"
    if "e \<in> set (object_entries obj)"
  proof -
    from that s have "(fst e, snd e) \<in> set obj" by simp
    from bucket_distinct [OF d this] group_items_bucket [OF assms, of "fst e"]
    show ?thesis by simp
  qed
qed

section \<open>The order loop\<close>

lemma place_orders_frame:
  "place_orders u ph ad pm es s = (r, s') \<Longrightarrow>
     products_tbl s' = products_tbl s \<and> sellers_tbl s' = sellers_tbl s \<and> cart_tbl s' = cart_tbl s
     \<and> reviews_tbl s' = reviews_tbl s \<and> id_gen s' = id_gen s"
proof (induction es arbitrary: s)
  case Nil
  then show ?case by simp
next
  case (Cons e es)
  obtain k items where e: "e = (k, items)" by (cases e)
  show ?case
    using Cons.prems
    by (auto simp: e split: prod.splits option.splits bool.splits
        dest!: db_orders_create_None db_orders_create_Some db_orderItems_createMany_False
          db_orderItems_createMany_True Cons.IH)
qed

lemma place_orders_None:
  "place_orders u ph ad pm es s = (None, s') \<Longrightarrow>
     orders_tbl s' = orders_tbl s @ map fst (created u ph ad pm (id_gen s) (next_id s) es) \<and>
     orderItems_tbl s' = orderItems_tbl s @ concat (map snd (created u ph ad pm (id_gen s) (next_id s) es))"
proof (induction es arbitrary: s)
  case Nil
  then show ?case by simp
next
  case (Cons e es)
  obtain k items where e: "e = (k, items)" by (cases e)
  from Cons.prems obtain order s1 s2 where
    c1: "db_orders_create (new_order u ph ad pm k items) s = (Some order, s1)" and
    c2: "db_orderItems_createMany (map (new_order_item u (order_id order)) items) s1 = (True, s2)" and
    rest: "place_orders u ph ad pm es s2 = (None, s')"
    by (auto simp: e split: prod.splits option.splits bool.splits)
  note o = db_orders_create_Some [OF c1]
  note i = db_orderItems_createMany_True [OF c2]
  have oid: "order_id order = id_gen s (next_id s)" using o by simp
  have s2: "orders_tbl s2 = orders_tbl s @ [order]"
    "orderItems_tbl s2 = orderItems_tbl s
        @ with_item_ids (id_gen s) (Suc (next_id s)) (map (new_order_item u (order_id order)) items)"
    "next_id s2 = Suc (next_id s) + length items" "id_gen s2 = id_gen s"
    using o i by simp_all
  show ?case
    using Cons.IH [OF rest] o by (simp add: e s2 oid)
qed

lemma place_orders_ok:
  "True \<notin> set (faults s) \<Longrightarrow>
     \<exists>s'. place_orders u ph ad pm es s = (None, s') \<and> True \<notin> set (faults s')"
proof (induction es arbitrary: s)
  case Nil
  then show ?case by simp
next
  case (Cons e es)
  obtain k items where e: "e = (k, items)" by (cases e)
  from db_orders_create_ok [OF Cons.prems] obtain order s1 where
    c1: "db_orders_create (new_order u ph ad pm k items) s = (Some order, s1)"
    and f1: "True \<notin> set (faults s1)" by blast
  from db_orderItems_createMany_ok [OF f1] obtain s2 where
    c2: "db_orderItems_createMany (map (new_order_item u (order_id order)) items) s1 = (True, s2)"
    and f2: "True \<notin> set (faults s2)" by blast
  from Cons.IH [OF f2] show ?case by (simp add: e c1 c2)
qed

lemma with_item_ids_length [simp]: "length (with_item_ids g n xs) = length xs"
  by (induction xs arbitrary: n) auto

lemma with_item_ids_line: "map line_of_item (with_item_ids g n xs) = map line_of_item xs"
  by (induction xs arbitrary: n) (auto simp: line_of_item_def)

lemma with_item_ids_orderId: "map item_orderId (with_item_ids g n xs) = map item_orderId xs"
  by (induction xs arbitrary: n) auto

lemma with_item_ids_subtotal: "map item_subtotal (with_item_ids g n xs) = map item_subtotal xs"
  by (induction xs arbitrary: n) auto

lemma with_item_ids_priced:
  "\<forall>i \<in> set xs. item_subtotal i = item_productPrice i * of_nat (item_quantity i) \<Longrightarrow>
   \<forall>i \<in> set (with_item_ids g n xs). item_subtotal i = item_productPrice i * of_nat (item_quantity i)"
  by (induction xs arbitrary: n) auto

lemma line_of_new_order_item: "line_of_item (new_order_item u oid l) = line_of_cart l"
  by (simp add: line_of_item_def line_of_cart_def new_order_item_def)

lemma created_length [simp]: "length (created u ph ad pm g n es) = length es"
  by (induction es arbitrary: n) auto

lemma created_sellers: "map (order_sellerId \<circ> fst) (created u ph ad pm g n es) = map fst es"
  by (induction es arbitrary: n) (auto simp: new_order_def)

lemma created_lines:
  "map line_of_item (concat (map snd (created u ph ad pm g n es)))
     = map line_of_cart (concat (map snd es))"
  by (induction es arbitrary: n) (auto simp: with_item_ids_line comp_def line_of_new_order_item)

lemma foldl_add_sum_list:
  fixes a :: rat
  shows "foldl (\<lambda>acc x. acc + f x) a xs = a + sum_list (map f xs)"
  by (induction xs arbitrary: a) (auto simp: algebra_simps)

lemma orderTotal_sum:
  "orderTotal items = sum_list (map (\<lambda>l. line_price l * of_nat (cart_quantity l)) items)"
  by (simp add: orderTotal_def foldl_add_sum_list)

lemma created_consistent:
  "\<forall>p \<in> set (created u ph ad pm g n es). consistent p"
proof (induction es arbitrary: n)
  case Nil
  then show ?case by simp
next
  case (Cons e es)
  obtain k items where e: "e = (k, items)" by (cases e)
  have a: "\<forall>i \<in> set (with_item_ids g (Suc n) (map (new_order_item u (g n)) items)). item_orderId i = g n"
  proof -
    have "map item_orderId (with_item_ids g (Suc n) (map (new_order_item u (g n)) items))
            = map (\<lambda>_. g n) items"
      by (simp add: with_item_ids_orderId new_order_item_def comp_def)
    then have "set (map item_orderId (with_item_ids g (Suc n) (map (new_order_item u (g n)) items))) \<subseteq> {g n}"
      by auto
    then show ?thesis by auto
  qed
  have b: "sum_list (map item_subtotal (with_item_ids g (Suc n) (map (new_order_item u (g n)) items)))
            = orderTotal items"
    by (simp add: with_item_ids_subtotal orderTotal_sum comp_def new_order_item_def)
  show ?case
    using Cons.IH a b by (simp add: e consistent_def new_order_def)
qed

lemma created_ids:
  "p \<in> set (created u ph ad pm g n es) \<Longrightarrow> \<exists>m \<ge> n. order_id (fst p) = g m"
proof (induction es arbitrary: n)
  case Nil
  then show ?case by simp
next
  case (Cons e es)
  obtain k items where e: "e = (k, items)" by (cases e)
  from Cons.prems consider
    "order_id (fst p) = g n" | "p \<in> set (created u ph ad pm g (Suc n + length items) es)"
    by (auto simp: e)
  then show ?case
  proof cases
    case 1
    then show ?thesis by blast
  next
    case 2
    from Cons.IH [OF 2] obtain m where "m \<ge> Suc n + length items" "order_id (fst p) = g m" by blast
    then show ?thesis by (intro exI [of _ m]) simp
  qed
qed

lemma created_distinct:
  "inj g \<Longrightarrow> distinct (map (order_id \<circ> fst) (created u ph ad pm g n es))"
proof (induction es arbitrary: n)
  case Nil
  then show ?case by simp
next
  case (Cons e es)
  obtain k items where e: "e = (k, items)" by (cases e)
  have "g n \<notin> (order_id \<circ> fst) ` set (created u ph ad pm g (Suc n + length items) es)"
  proof
    assume "g n \<in> (order_id \<circ> fst) ` set (created u ph ad pm g (Suc n + length items) es)"
    then obtain p where p: "p \<in> set (created u ph ad pm g (Suc n + length items) es)"
      and "g n = order_id (fst p)" by auto
    with created_ids [OF p] obtain m where "m \<ge> Suc n + length items" "g n = g m" by auto
    with Cons.prems show False by (auto dest: injD)
  qed
  then show ?case using Cons by (simp add: e)
qed

lemma items_of_order:
  "distinct (map (order_id \<circ> fst) ps) \<Longrightarrow> \<forall>p \<in> set ps. \<forall>i \<in> set (snd p). item_orderId i = order_id (fst p) \<Longrightarrow>
     p \<in> set ps \<Longrightarrow>
     filter (\<lambda>i. item_orderId i = order_id (fst p)) (concat (map snd ps)) = snd p"
proof (induction ps)
  case Nil
  then show ?case by simp
next
  case (Cons q ps)
  have "(order_id \<circ> fst) q \<notin> (order_id \<circ> fst) ` set ps"
    using Cons.prems(1) by simp
  then have fresh: "order_id (fst r) \<noteq> order_id (fst q)" if "r \<in> set ps" for r
    using that by (metis comp_apply image_eqI)
  show ?case
  proof (cases "p = q")
    case True
    have "filter (\<lambda>i. item_orderId i = order_id (fst q)) (concat (map snd ps)) = []"
    proof -
      have "item_orderId i \<noteq> order_id (fst q)" if "r \<in> set ps" "i \<in> set (snd r)" for r i
      proof -
        have "item_orderId i = order_id (fst r)" using Cons.prems(2) that by simp
        moreover have "order_id (fst r) \<noteq> order_id (fst q)" using fresh that(1) by simp
        ultimately show ?thesis by simp
      qed
      then show ?thesis by (auto simp: filter_empty_conv)
    qed
    moreover have "filter (\<lambda>i. item_orderId i = order_id (fst q)) (snd q) = snd q"
      using Cons.prems(2) by (simp add: filter_id_conv)
    ultimately show ?thesis by (simp add: True)
  next
    case False
    with Cons.prems have p: "p \<in> set ps" by simp
    then have "order_id (fst p) \<noteq> order_id (fst q)" using fresh by simp
    then have "filter (\<lambda>i. item_orderId i = order_id (fst p)) (snd q) = []"
      using Cons.prems(2) by (auto simp: filter_empty_conv)
    then show ?thesis using Cons.IH p Cons.prems(1,2) by simp
  qed
qed

lemma created_entry:
  "p \<in> set (created u ph ad pm g n es) \<Longrightarrow>
     \<exists>e \<in> set es. order_sellerId (fst p) = fst e \<and> map line_of_item (snd p) = map line_of_cart (snd e)"
proof (induction es arbitrary: n)
  case Nil
  then show ?case by simp
next
  case (Cons e es)
  obtain k items where e: "e = (k, items)" by (cases e)
  from Cons.prems consider
    "p = ((new_order u ph ad pm k items)\<lparr>order_id := g n\<rparr>,
          with_item_ids g (Suc n) (map (new_order_item u (g n)) items))"
    | "p \<in> set (created u ph ad pm g (Suc n + length items) es)"
    by (auto simp: e)
  then show ?case
  proof cases
    case 1
    then show ?thesis
      by (simp add: e new_order_def with_item_ids_line comp_def line_of_new_order_item)
  next
    case 2
    from Cons.IH [OF 2] show ?thesis by auto
  qed
qed

lemma place_orders_written:
  "place_orders u ph ad pm es s = (r, s') \<Longrightarrow>
     \<exists>ps. written s r s' ps \<and> (inj (id_gen s) \<longrightarrow> distinct (map (order_id \<circ> fst) ps))"
proof (induction es arbitrary: s)
  case Nil
  then have "written s r s' []" by (simp add: written_def)
  then show ?case by (intro exI [of _ "[]"]) simp
next
  case (Cons e es)
  obtain k items where e: "e = (k, items)" by (cases e)
  obtain c s1 where c1: "db_orders_create (new_order u ph ad pm k items) s = (c, s1)"
    by (cases "db_orders_create (new_order u ph ad pm k items) s")
  show ?case
  proof (cases c)
    case None
    with Cons.prems c1 have "r = Some StoreError" "s' = s1" by (simp_all add: e)
    moreover from db_orders_create_None c1 None have "s1 = s\<lparr>faults := tl (faults s)\<rparr>" by simp
    ultimately have "written s r s' []" by (simp add: written_def)
    then show ?thesis by (intro exI [of _ "[]"]) simp
  next
    case (Some order)
    from c1 Some have c1': "db_orders_create (new_order u ph ad pm k items) s = (Some order, s1)"
      by simp
    note o = db_orders_create_Some [OF c1']
    have oid: "order_id order = id_gen s (next_id s)" using o by simp
    have total: "order_totalAmount order = orderTotal items" using o by (simp add: new_order_def)
    obtain b s2 where
      c2: "db_orderItems_createMany (map (new_order_item u (order_id order)) items) s1 = (b, s2)"
      by (cases "db_orderItems_createMany (map (new_order_item u (order_id order)) items) s1")
    show ?thesis
    proof (cases b)
      case False
      with Cons.prems c1 Some c2 have rs: "r = Some StoreError" "s' = s2" by (simp_all add: e)
      from db_orderItems_createMany_False c2 False have "s2 = s1\<lparr>faults := tl (faults s1)\<rparr>" by simp
      then have "orders_tbl s' = orders_tbl s @ [order]" "orderItems_tbl s' = orderItems_tbl s"
        using o rs by simp_all
      then have "written s r s' [(order, [])]"
        using rs oid by (auto simp: written_def)
      then show ?thesis by (intro exI [of _ "[(order, [])]"]) simp
    next
      case True
      from c2 True have
        c2': "db_orderItems_createMany (map (new_order_item u (order_id order)) items) s1 = (True, s2)"
        by simp
      note i = db_orderItems_createMany_True [OF c2']
      let ?its = "with_item_ids (id_gen s) (Suc (next_id s)) (map (new_order_item u (order_id order)) items)"
      have s2: "orders_tbl s2 = orders_tbl s @ [order]" "orderItems_tbl s2 = orderItems_tbl s @ ?its"
        "next_id s2 = Suc (next_id s) + length items" "id_gen s2 = id_gen s"
        using o i by simp_all
      from Cons.prems c1 Some c2 True have rest: "place_orders u ph ad pm es s2 = (r, s')"
        by (simp add: e)
      from Cons.IH [OF rest] obtain ps where
        w: "written s2 r s' ps" and d: "inj (id_gen s2) \<longrightarrow> distinct (map (order_id \<circ> fst) ps)"
        by blast
      have its_ids: "\<forall>i \<in> set ?its. item_orderId i = order_id order"
      proof -
        have "map item_orderId ?its = map (\<lambda>_. order_id order) items"
          by (simp add: with_item_ids_orderId new_order_item_def comp_def)
        then have "set (map item_orderId ?its) \<subseteq> {order_id order}" by auto
        then show ?thesis by auto
      qed
      have its_priced:
        "\<forall>i \<in> set ?its. item_subtotal i = item_productPrice i * of_nat (item_quantity i)"
        by (rule with_item_ids_priced) (simp add: new_order_item_def)
      have its_sum: "sum_list (map item_subtotal ?its) = order_totalAmount order"
        by (simp add: with_item_ids_subtotal orderTotal_sum comp_def new_order_item_def total)
      have later: "\<forall>p \<in> set ps. \<exists>m > next_id s. order_id (fst p) = id_gen s m"
      proof
        fix p assume "p \<in> set ps"
        with w obtain m where "m \<ge> next_id s2" "order_id (fst p) = id_gen s2 m"
          by (auto simp: written_def)
        then show "\<exists>m > next_id s. order_id (fst p) = id_gen s m"
          using s2 by (intro exI [of _ m]) simp
      qed
      have last_eq: "last ((order, ?its) # ps) = last ps" if "p \<in> set ps" for p
        using that by (cases ps) auto
      have "written s r s' ((order, ?its) # ps)"
        unfolding written_def
      proof (intro conjI ballI)
        show "orders_tbl s' = orders_tbl s @ map fst ((order, ?its) # ps)"
          using w s2 by (simp add: written_def)
        show "orderItems_tbl s' = orderItems_tbl s @ concat (map snd ((order, ?its) # ps))"
          using w s2 by (simp add: written_def)
      next
        fix p assume "p \<in> set ((order, ?its) # ps)"
        then consider "p = (order, ?its)" | "p \<in> set ps" by auto
        then show "\<exists>m \<ge> next_id s. order_id (fst p) = id_gen s m"
        proof cases
          case 1
          then show ?thesis using oid by auto
        next
          case 2
          with later obtain m where "m > next_id s" "order_id (fst p) = id_gen s m" by blast
          then show ?thesis by (intro exI [of _ m]) simp
        qed
      next
        fix p i assume p: "p \<in> set ((order, ?its) # ps)" and i: "i \<in> set (snd p)"
        from p consider "p = (order, ?its)" | "p \<in> set ps" by auto
        then show "item_orderId i = order_id (fst p)"
        proof cases
          case 1
          then show ?thesis using its_ids i by simp
        next
          case 2
          then show ?thesis using w i by (auto simp: written_def)
        qed
        from p consider "p = (order, ?its)" | "p \<in> set ps" by auto
        then show "item_subtotal i = item_productPrice i * of_nat (item_quantity i)"
        proof cases
          case 1
          then show ?thesis using its_priced i by simp
        next
          case 2
          then show ?thesis using w i by (auto simp: written_def)
        qed
      next
        fix p assume p: "p \<in> set ((order, ?its) # ps)"
        from p consider "p = (order, ?its)" | "p \<in> set ps" by auto
        then show "sum_list (map item_subtotal (snd p)) = order_totalAmount (fst p) \<or>
                   (r = Some StoreError \<and> p = last ((order, ?its) # ps) \<and> snd p = [])"
        proof cases
          case 1
          then show ?thesis using its_sum by simp
        next
          case 2
          with w have "sum_list (map item_subtotal (snd p)) = order_totalAmount (fst p) \<or>
                   (r = Some StoreError \<and> p = last ps \<and> snd p = [])"
            by (simp add: written_def)
          then show ?thesis using last_eq [OF 2] by simp
        qed
      qed
      moreover have "distinct (map (order_id \<circ> fst) ((order, ?its) # ps))" if inj: "inj (id_gen s)"
      proof -
        have "order_id order \<notin> (order_id \<circ> fst) ` set ps"
        proof
          assume "order_id order \<in> (order_id \<circ> fst) ` set ps"
          then obtain p where "p \<in> set ps" "order_id (fst p) = order_id order" by auto
          with later obtain m where "m > next_id s" "id_gen s m = id_gen s (next_id s)"
            using oid by force
          with inj show False by (auto dest: injD)
        qed
        then show ?thesis using d inj s2 by simp
      qed
      ultimately show ?thesis by blast
    qed
  qed
qed

section \<open>handlePlaceOrder\<close>

lemma handlePlaceOrder_Done:
  assumes "handlePlaceOrder user cartItems address phone pm s = (Done, s')"
  shows "\<exists>obj. group_items cartItems [] = Inr obj \<and>
           orders_tbl s' = orders_tbl s
              @ map fst (created user phone address pm (id_gen s) (next_id s) (object_entries obj)) \<and>
           orderItems_tbl s' = orderItems_tbl s
              @ concat (map snd (created user phone address pm (id_gen s) (next_id s) (object_entries obj))) \<and>
           cart_tbl s' = filter (\<lambda>c. cart_userId c \<noteq> au_id user) (cart_tbl s)"
proof -
  from assms obtain obj s1 where
    g: "group_items cartItems [] = Inr obj" and
    p: "place_orders user phone address pm (object_entries obj) s = (None, s1)" and
    d: "db_cart_deleteMany (\<lambda>c. cart_userId c = au_id user) s1 = (True, s')"
    by (auto simp: handlePlaceOrder_def split: if_splits sum.splits prod.splits option.splits bool.splits)
  note fr = place_orders_frame [OF p]
  note cr = place_orders_None [OF p]
  note dl = db_cart_deleteMany_True [OF d]
  have "orders_tbl s' = orders_tbl s1" "orderItems_tbl s' = orderItems_tbl s1"
    "cart_tbl s' = filter (\<lambda>c. cart_userId c \<noteq> au_id user) (cart_tbl s1)"
    using dl by simp_all
  with g fr cr show ?thesis by simp
qed

lemma handlePlaceOrder_cart:
  assumes "handlePlaceOrder user cartItems address phone pm s = (r, s')"
  shows "cart_tbl s' = (if r = Done then filter (\<lambda>c. cart_userId c \<noteq> au_id user) (cart_tbl s) else cart_tbl s)"
proof (cases "r = Done")
  case True
  with handlePlaceOrder_Done assms show ?thesis by fastforce
next
  case False
  show ?thesis
  proof (cases "address = [] \<or> phone = []")
    case True
    with assms False show ?thesis by (auto simp: handlePlaceOrder_def)
  next
    case valid: False
    show ?thesis
    proof (cases "group_items cartItems []")
      case (Inl e)
      with assms valid False show ?thesis by (auto simp: handlePlaceOrder_def)
    next
      case (Inr obj)
      obtain e s1 where p: "place_orders user phone address pm (object_entries obj) s = (e, s1)"
        by (cases "place_orders user phone address pm (object_entries obj) s")
      note fr = place_orders_frame [OF p]
      show ?thesis
      proof (cases e)
        case (Some err)
        with assms valid Inr p fr False show ?thesis by (auto simp: handlePlaceOrder_def)
      next
        case None
        obtain b s2 where d: "db_cart_deleteMany (\<lambda>c. cart_userId c = au_id user) s1 = (b, s2)"
          by (cases "db_cart_deleteMany (\<lambda>c. cart_userId c = au_id user) s1")
        with assms valid Inr p None False have "b = False" "s' = s2"
          by (auto simp: handlePlaceOrder_def split: bool.splits)
        with db_cart_deleteMany_False d fr False show ?thesis by fastforce
      qed
    qed
  qed
qed

lemma handlePlaceOrder_frame:
  assumes "handlePlaceOrder user cartItems address phone pm s = (r, s')"
  shows "products_tbl s' = products_tbl s \<and> sellers_tbl s' = sellers_tbl s \<and> reviews_tbl s' = reviews_tbl s"
proof (cases "address = [] \<or> phone = []")
  case True
  with assms show ?thesis by (auto simp: handlePlaceOrder_def)
next
  case valid: False
  show ?thesis
  proof (cases "group_items cartItems []")
    case (Inl e)
    with assms valid show ?thesis by (auto simp: handlePlaceOrder_def)
  next
    case (Inr obj)
    obtain e s1 where p: "place_orders user phone address pm (object_entries obj) s = (e, s1)"
      by (cases "place_orders user phone address pm (object_entries obj) s")
    note fr = place_orders_frame [OF p]
    show ?thesis
    proof (cases e)
      case (Some err)
      with assms valid Inr p fr show ?thesis by (auto simp: handlePlaceOrder_def)
    next
      case None
      obtain b s2 where d: "db_cart_deleteMany (\<lambda>c. cart_userId c = au_id user) s1 = (b, s2)"
        by (cases "db_cart_deleteMany (\<lambda>c. cart_userId c = au_id user) s1")
      with assms valid Inr p None have s': "s' = s2"
        by (auto simp: handlePlaceOrder_def split: bool.splits)
      show ?thesis
      proof (cases b)
        case True
        with db_cart_deleteMany_True d fr s' show ?thesis by fastforce
      next
        case False
        with db_cart_deleteMany_False d fr s' show ?thesis by fastforce
      qed
    qed
  qed
qed

lemma handlePlaceOrder_ok:
  assumes "address \<noteq> []" "phone \<noteq> []" "True \<notin> set (faults s)"
    and "\<forall>k \<in> seller_ids cartItems. k \<notin> set object_prototype_keys"
  shows "\<exists>s'. handlePlaceOrder user cartItems address phone pm s = (Done, s')"
proof -
  from group_items_ok [OF assms(4)] obtain obj where g: "group_items cartItems [] = Inr obj" by blast
  from place_orders_ok [OF assms(3)] obtain s1 where
    p: "place_orders user phone address pm (object_entries obj) s = (None, s1)"
    and f1: "True \<notin> set (faults s1)" by blast
  from db_cart_deleteMany_ok [OF f1] obtain s2 where
    d: "db_cart_deleteMany (\<lambda>c. cart_userId c = au_id user) s1 = (True, s2)" by blast
  show ?thesis using assms(1,2) g p d by (simp add: handlePlaceOrder_def)
qed

lemma written_Nil: "orders_tbl s' = orders_tbl s \<Longrightarrow> orderItems_tbl s' = orderItems_tbl s \<Longrightarrow>
    written s r s' []"
  by (simp add: written_def)

lemma written_later:
  "written s r s1 ps \<Longrightarrow> orders_tbl s2 = orders_tbl s1 \<Longrightarrow> orderItems_tbl s2 = orderItems_tbl s1 \<Longrightarrow>
     written s r s2 ps"
  by (simp add: written_def)

lemma handlePlaceOrder_written:
  assumes run: "handlePlaceOrder user cartItems address phone pm s = (r, s')"
  shows "\<exists>ps r0. written s r0 s' ps \<and>
           (inj (id_gen s) \<longrightarrow> distinct (map (order_id \<circ> fst) ps)) \<and>
           (r0 = Some StoreError \<longrightarrow> r = Failed StoreError)"
proof (cases "address = [] \<or> phone = []")
  case True
  with run have "s' = s" by (auto simp: handlePlaceOrder_def)
  then have "written s None s' []" by (simp add: written_Nil)
  then show ?thesis by (intro exI [of _ "[]"] exI [of _ None]) simp
next
  case valid: False
  show ?thesis
  proof (cases "group_items cartItems []")
    case (Inl e)
    with run valid have "s' = s" by (auto simp: handlePlaceOrder_def)
    then have "written s None s' []" by (simp add: written_Nil)
    then show ?thesis by (intro exI [of _ "[]"] exI [of _ None]) simp
  next
    case (Inr obj)
    obtain r0 s1 where p: "place_orders user phone address pm (object_entries obj) s = (r0, s1)"
      by (cases "place_orders user phone address pm (object_entries obj) s")
    from place_orders_written [OF p] obtain ps where
      w: "written s r0 s1 ps" and d: "inj (id_gen s) \<longrightarrow> distinct (map (order_id \<circ> fst) ps)"
      by blast
    show ?thesis
    proof (cases r0)
      case (Some e)
      with run valid Inr p have "r = Failed e" "s' = s1" by (auto simp: handlePlaceOrder_def)
      with w d Some show ?thesis by auto
    next
      case None
      obtain b s2 where dl: "db_cart_deleteMany (\<lambda>c. cart_userId c = au_id user) s1 = (b, s2)"
        by (cases "db_cart_deleteMany (\<lambda>c. cart_userId c = au_id user) s1")
      with run valid Inr p None have s': "s' = s2"
        by (auto simp: handlePlaceOrder_def split: bool.splits)
      have "orders_tbl s2 = orders_tbl s1 \<and> orderItems_tbl s2 = orderItems_tbl s1"
      proof (cases b)
        case True
        with db_cart_deleteMany_True dl show ?thesis by fastforce
      next
        case False
        with db_cart_deleteMany_False dl show ?thesis by fastforce
      qed
      with w have "written s r0 s' ps" by (simp add: s' written_later)
      with d None show ?thesis by auto
    qed
  qed
qed

subsection \<open>The example checkout\<close>

lemma demo_gen_inj: "inj demo_gen"
  by (auto simp: inj_def demo_gen_def dest: arg_cong [where f = length])

lemma shop_ids: "inj (id_gen shop)"
  by (simp add: shop_def demo_gen_inj)

lemma shop_cartItems_eq:
  "shop_cartItems = [CartItem.extend rowA \<lparr>cart_product = Some productA\<rparr>,
                     CartItem.extend rowB \<lparr>cart_product = Some productB\<rparr>]"
  by (simp add: shop_cartItems_def loadCart_def shop_def buyer_def db_cart_list_def db_call_def
      rowA_def rowB_def db_products_get_def productA_def productB_def)

lemma stale_cartItems_eq:
  "stale_cartItems = [CartItem.extend rowA \<lparr>cart_product = Some productA\<rparr>,
                      CartItem.extend rowGone \<lparr>cart_product = None\<rparr>]"
  by (simp add: stale_cartItems_def stale_shop_def loadCart_def shop_def buyer_def db_cart_list_def db_call_def
      rowA_def rowGone_def db_products_get_def productA_def productB_def)

lemma shop_run:
  "handlePlaceOrder buyer shop_cartItems ''12 Lake Road'' ''5550100'' online shop = (Done, shop_after)"
proof -
  have "fst (handlePlaceOrder buyer shop_cartItems ''12 Lake Road'' ''5550100'' online shop) = Done"
    by code_simp
  then show ?thesis by (simp add: shop_after_def prod_eq_iff)
qed

lemma late_flaky_run:
  "handlePlaceOrder buyer shop_cartItems ''12 Lake Road'' ''5550100'' online late_flaky_shop
     = (Failed StoreError, late_flaky_after)"
proof -
  have "fst (handlePlaceOrder buyer shop_cartItems ''12 Lake Road'' ''5550100'' online late_flaky_shop)
          = Failed StoreError"
    by code_simp
  then show ?thesis by (simp add: late_flaky_after_def prod_eq_iff)
qed

subsection \<open>Validation\<close>

text \<open>
  Claim C8. When the delivery address or the phone is empty, handlePlaceOrder returns
  before any store call: the whole store is unchanged, so no Order and no OrderItem is
  created and no CartItem is deleted.
\<close>

theorem C8_validation_gate:
  "address = [] \<or> phone = [] \<Longrightarrow>
     handlePlaceOrder user cartItems address phone paymentMethod s = (Returned, s)"
  by (simp add: handlePlaceOrder_def)

text \<open>The example checkout with an empty address.\<close>

theorem C8_validation_gate_witness:
  "(([] :: string) = [] \<or> ''5550100'' = []) \<and>
   handlePlaceOrder buyer shop_cartItems [] ''5550100'' online shop = (Returned, shop)"
  using C8_validation_gate [of "[]" "''5550100''" buyer shop_cartItems online shop] by simp

subsection \<open>One order per seller\<close>

text \<open>
  Claim C1. Take a cart in which every line resolves to a seller id, and a run of
  handlePlaceOrder that ends successfully. With \<open>n\<close> the number of distinct seller ids
  of the cart, the run appends exactly \<open>n\<close> orders, one per seller id (their seller ids
  are distinct and are exactly the seller ids of the cart), and the order items it
  appends are, as a multiset of (product, quantity, price), the lines of the cart. When
  the store never issues an id twice, the items that point to one of the new orders are
  exactly the cart lines of that order's seller, in cart order: no order mixes sellers.
\<close>

theorem C1_one_order_per_seller:
  assumes run: "handlePlaceOrder user cartItems address phone paymentMethod s = (Done, s')"
    and resolved: "\<forall>l \<in> set cartItems. line_sellerId l \<noteq> None"
  shows "orders_tbl s' = orders_tbl s @ orders_created s s' \<and>
         orderItems_tbl s' = orderItems_tbl s @ orderItems_created s s' \<and>
         length (orders_created s s') = card (seller_ids cartItems) \<and>
         distinct (map order_sellerId (orders_created s s')) \<and>
         set (map order_sellerId (orders_created s s')) = seller_ids cartItems \<and>
         mset (map line_of_item (orderItems_created s s')) = mset (map line_of_cart cartItems) \<and>
         (inj (id_gen s) \<longrightarrow>
            (\<forall>order \<in> set (orders_created s s').
               map line_of_item
                 (filter (\<lambda>i. item_orderId i = order_id order) (orderItems_created s s'))
               = map line_of_cart
                   (filter (\<lambda>l. line_sellerId l = Some (order_sellerId order)) cartItems)))"
proof -
  from handlePlaceOrder_Done [OF run] obtain obj where
    g: "group_items cartItems [] = Inr obj" and
    o: "orders_tbl s' = orders_tbl s
          @ map fst (created user phone address paymentMethod (id_gen s) (next_id s) (object_entries obj))" and
    i: "orderItems_tbl s' = orderItems_tbl s
          @ concat (map snd (created user phone address paymentMethod (id_gen s) (next_id s) (object_entries obj)))"
    by blast
  define es where "es = object_entries obj"
  define cr where "cr = created user phone address paymentMethod (id_gen s) (next_id s) es"
  have oc: "orders_created s s' = map fst cr"
    using o by (simp add: orders_created_def cr_def es_def)
  have ic: "orderItems_created s s' = concat (map snd cr)"
    using i by (simp add: orderItems_created_def cr_def es_def)
  note pe = placed_entries [OF g, folded es_def]
  have sellers: "map order_sellerId (orders_created s s') = map fst es"
    using created_sellers [of user phone address paymentMethod "id_gen s" "next_id s" es]
    by (simp add: oc cr_def)
  have all: "filter (\<lambda>l. line_sellerId l \<noteq> None) cartItems = cartItems"
    using resolved by (simp add: filter_id_conv)
  have lines: "mset (map line_of_item (orderItems_created s s')) = mset (map line_of_cart cartItems)"
  proof -
    have "map line_of_item (orderItems_created s s') = map line_of_cart (concat (map snd es))"
      unfolding ic cr_def by (rule created_lines)
    then have "mset (map line_of_item (orderItems_created s s'))
                 = image_mset line_of_cart (mset (concat (map snd es)))" by simp
    also have "\<dots> = image_mset line_of_cart (mset cartItems)" unfolding pe(4) all ..
    finally show ?thesis by simp
  qed
  have per_order:
    "map line_of_item (filter (\<lambda>i. item_orderId i = order_id order) (orderItems_created s s'))
       = map line_of_cart (filter (\<lambda>l. line_sellerId l = Some (order_sellerId order)) cartItems)"
    if ids: "inj (id_gen s)" and mem: "order \<in> set (orders_created s s')" for order
  proof -
    from mem oc obtain p where p: "p \<in> set cr" and fp: "fst p = order" by auto
    have d: "distinct (map (order_id \<circ> fst) cr)"
      unfolding cr_def using ids by (rule created_distinct)
    have c: "\<forall>p \<in> set cr. \<forall>i \<in> set (snd p). item_orderId i = order_id (fst p)"
      using created_consistent [of user phone address paymentMethod "id_gen s" "next_id s" es]
      by (simp add: cr_def consistent_def)
    have f: "filter (\<lambda>i. item_orderId i = order_id order) (orderItems_created s s') = snd p"
      using items_of_order [OF d c p] by (simp add: ic fp)
    note p' = p [unfolded cr_def]
    from created_entry [OF p'] obtain e where
      e: "e \<in> set es" "order_sellerId (fst p) = fst e"
         "map line_of_item (snd p) = map line_of_cart (snd e)" by blast
    from pe(5) [OF e(1)] e(2,3) show ?thesis by (simp add: f fp)
  qed
  show ?thesis
    using o i oc ic sellers pe(1,2,3) lines per_order
    by (simp add: cr_def es_def)
qed

text \<open>The example checkout: two sellers, two orders.\<close>

theorem C1_one_order_per_seller_witness:
  "handlePlaceOrder buyer shop_cartItems ''12 Lake Road'' ''5550100'' online shop = (Done, shop_after) \<and>
   map line_sellerId shop_cartItems = [Some ''seller1'', Some ''seller2''] \<and>
   inj (id_gen shop) \<and>
   card (seller_ids shop_cartItems) = 2 \<and>
   length (orders_created shop shop_after) = 2 \<and>
   map order_sellerId (orders_created shop shop_after) = [''seller1'', ''seller2''] \<and>
   mset (map line_of_item (orderItems_created shop shop_after)) = mset (map line_of_cart shop_cartItems) \<and>
   map line_of_item
     (filter (\<lambda>i. item_orderId i = order_id (hd (orders_created shop shop_after)))
        (orderItems_created shop shop_after)) = [(''productA'', 2, 100)]"
proof -
  have sellers: "map line_sellerId shop_cartItems = [Some ''seller1'', Some ''seller2'']"
    by code_simp
  have resolved: "\<forall>l \<in> set shop_cartItems. line_sellerId l \<noteq> None" by code_simp
  have placed: "map order_sellerId (orders_created shop shop_after) = [''seller1'', ''seller2'']"
    by code_simp
  then have first: "hd (orders_created shop shop_after) \<in> set (orders_created shop shop_after)"
    by auto
  have n: "length (orders_created shop shop_after) = 2" by code_simp
  have lines: "map line_of_cart
      (filter (\<lambda>l. line_sellerId l = Some (order_sellerId (hd (orders_created shop shop_after))))
         shop_cartItems) = [(''productA'', 2, 100)]"
    by code_simp
  from C1_one_order_per_seller [OF shop_run resolved] shop_run sellers shop_ids placed n first lines
  show ?thesis by simp
qed

subsection \<open>Order totals\<close>

text \<open>
  Claim C2 speaks of every order handlePlaceOrder creates. In the example shop, when the
  order for seller1 is created and the call that stores its items throws, the run ends
  in the \<open>catch\<close> block and the order stays: its total amount is 200 and no order item
  was created, so the subtotals of its items add up to 0.
\<close>

theorem C2_counterexample:
  "fst (handlePlaceOrder buyer shop_cartItems ''12 Lake Road'' ''5550100'' online flaky_shop)
     = Failed StoreError \<and>
   map order_totalAmount (orders_created flaky_shop flaky_after) = [200] \<and>
   orderItems_created flaky_shop flaky_after = [] \<and>
   sum_list (map item_subtotal (orderItems_created flaky_shop flaky_after)) = 0"
proof -
  have "fst (handlePlaceOrder buyer shop_cartItems ''12 Lake Road'' ''5550100'' online flaky_shop)
     = Failed StoreError" by code_simp
  moreover have "map order_totalAmount (orders_created flaky_shop flaky_after) = [200]" by code_simp
  moreover have "orderItems_created flaky_shop flaky_after = []" by code_simp
  ultimately show ?thesis by simp
qed

text \<open>
  Claim C2, as the code has it. Whatever the outcome of a run of handlePlaceOrder on a
  store that never issues an id twice, for every order the run created the subtotals of
  the order items created for it (those carrying its id) add up to the order's total
  amount, with one exception: when the run ended in the \<open>catch\<close> block on a store
  failure, the last order it created can be without any item. So every order of a run
  that ends successfully, and every order but possibly the last of a run that fails,
  matches its items. Every created item's subtotal is its product price times its
  quantity.
\<close>

theorem C2_subtotals_sum_unless_items_missing:
  assumes run: "handlePlaceOrder user cartItems address phone paymentMethod s = (r, s')"
    and ids: "inj (id_gen s)"
  shows "(\<forall>order \<in> set (orders_created s s').
            sum_list (map item_subtotal
              (filter (\<lambda>i. item_orderId i = order_id order) (orderItems_created s s')))
              = order_totalAmount order
            \<or> (r = Failed StoreError \<and> order = last (orders_created s s') \<and>
                filter (\<lambda>i. item_orderId i = order_id order) (orderItems_created s s') = [])) \<and>
         (\<forall>i \<in> set (orderItems_created s s').
            item_subtotal i = item_productPrice i * of_nat (item_quantity i))"
proof -
  from handlePlaceOrder_written [OF run] ids obtain ps r0 where
    w: "written s r0 s' ps" and d: "distinct (map (order_id \<circ> fst) ps)" and
    f: "r0 = Some StoreError \<longrightarrow> r = Failed StoreError"
    by blast
  have oc: "orders_created s s' = map fst ps"
    using w by (simp add: orders_created_def written_def)
  have ic: "orderItems_created s s' = concat (map snd ps)"
    using w by (simp add: orderItems_created_def written_def)
  have c: "\<forall>p \<in> set ps. \<forall>i \<in> set (snd p). item_orderId i = order_id (fst p)"
    using w by (simp add: written_def)
  have total:
    "sum_list (map item_subtotal
        (filter (\<lambda>i. item_orderId i = order_id order) (orderItems_created s s')))
       = order_totalAmount order
     \<or> (r = Failed StoreError \<and> order = last (orders_created s s') \<and>
         filter (\<lambda>i. item_orderId i = order_id order) (orderItems_created s s') = [])"
    if "order \<in> set (orders_created s s')" for order
  proof -
    from that oc obtain p where p: "p \<in> set ps" and fp: "fst p = order" by auto
    have its: "filter (\<lambda>i. item_orderId i = order_id order) (orderItems_created s s') = snd p"
      using items_of_order [OF d c p] by (simp add: ic fp)
    from w p have "sum_list (map item_subtotal (snd p)) = order_totalAmount (fst p) \<or>
         (r0 = Some StoreError \<and> p = last ps \<and> snd p = [])"
      by (simp add: written_def)
    then show ?thesis
    proof
      assume "sum_list (map item_subtotal (snd p)) = order_totalAmount (fst p)"
      then show ?thesis by (simp add: its fp)
    next
      assume stray: "r0 = Some StoreError \<and> p = last ps \<and> snd p = []"
      from p have "ps \<noteq> []" by auto
      then have "last (map fst ps) = fst (last ps)" by (rule last_map)
      with stray fp have "order = last (orders_created s s')" by (simp add: oc)
      moreover from stray have "snd p = []" by blast
      then have "filter (\<lambda>i. item_orderId i = order_id order) (orderItems_created s s') = []"
        using its by simp
      moreover have "r = Failed StoreError" using stray f by simp
      ultimately show ?thesis by simp
    qed
  qed
  have priced: "item_subtotal i = item_productPrice i * of_nat (item_quantity i)"
    if "i \<in> set (orderItems_created s s')" for i
  proof -
    from that ic obtain p where "p \<in> set ps" "i \<in> set (snd p)" by auto
    with w show ?thesis by (auto simp: written_def)
  qed
  from total priced show ?thesis by blast
qed

text \<open>
  The example checkout (totals 200 and 50, each matched by its items), and the run in
  which the items of the second order cannot be stored: the first order still matches
  its items, the second is left without any.
\<close>

theorem C2_subtotals_sum_unless_items_missing_witness:
  "handlePlaceOrder buyer shop_cartItems ''12 Lake Road'' ''5550100'' online shop = (Done, shop_after) \<and>
   inj (id_gen shop) \<and>
   map order_totalAmount (orders_created shop shop_after) = [200, 50] \<and>
   sum_list (map item_subtotal
      (filter (\<lambda>i. item_orderId i = order_id (hd (orders_created shop shop_after)))
         (orderItems_created shop shop_after))) = 200 \<and>
   sum_list (map item_subtotal
      (filter (\<lambda>i. item_orderId i = order_id (last (orders_created shop shop_after)))
         (orderItems_created shop shop_after))) = 50 \<and>
   handlePlaceOrder buyer shop_cartItems ''12 Lake Road'' ''5550100'' online late_flaky_shop
     = (Failed StoreError, late_flaky_after) \<and>
   map order_totalAmount (orders_created late_flaky_shop late_flaky_after) = [200, 50] \<and>
   sum_list (map item_subtotal
      (filter (\<lambda>i. item_orderId i = order_id (hd (orders_created late_flaky_shop late_flaky_after)))
         (orderItems_created late_flaky_shop late_flaky_after))) = 200 \<and>
   filter (\<lambda>i. item_orderId i = order_id (last (orders_created late_flaky_shop late_flaky_after)))
      (orderItems_created late_flaky_shop late_flaky_after) = []"
proof -
  have totals: "map order_totalAmount (orders_created shop shop_after) = [200, 50]" by code_simp
  then have ne: "orders_created shop shop_after \<noteq> []" by auto
  have first: "order_totalAmount (hd (orders_created shop shop_after)) = 200"
    using totals ne by (simp add: hd_map [symmetric])
  have second: "order_totalAmount (last (orders_created shop shop_after)) = 50"
    using totals ne by (simp add: last_map [symmetric])
  have mem: "hd (orders_created shop shop_after) \<in> set (orders_created shop shop_after)"
    "last (orders_created shop shop_after) \<in> set (orders_created shop shop_after)"
    using ne by simp_all
  have ltotals: "map order_totalAmount (orders_created late_flaky_shop late_flaky_after) = [200, 50]"
    by code_simp
  then have lne: "orders_created late_flaky_shop late_flaky_after \<noteq> []" by auto
  have lfirst: "order_totalAmount (hd (orders_created late_flaky_shop late_flaky_after)) = 200"
    using ltotals lne by (simp add: hd_map [symmetric])
  have lmem: "hd (orders_created late_flaky_shop late_flaky_after)
                \<in> set (orders_created late_flaky_shop late_flaky_after)"
    using lne by simp
  have lids: "inj (id_gen late_flaky_shop)" by (simp add: late_flaky_shop_def shop_def demo_gen_inj)
  have has_items:
    "filter (\<lambda>i. item_orderId i = order_id (hd (orders_created late_flaky_shop late_flaky_after)))
       (orderItems_created late_flaky_shop late_flaky_after) \<noteq> []"
    by code_simp
  have stray:
    "filter (\<lambda>i. item_orderId i = order_id (last (orders_created late_flaky_shop late_flaky_after)))
       (orderItems_created late_flaky_shop late_flaky_after) = []"
    by code_simp
  from C2_subtotals_sum_unless_items_missing [OF shop_run shop_ids]
    C2_subtotals_sum_unless_items_missing [OF late_flaky_run lids]
    mem first second lmem lfirst has_items stray shop_run shop_ids totals ltotals late_flaky_run
  show ?thesis by auto
qed

subsection \<open>Clearing the cart\<close>

text \<open>
  Claim C3 says that the cart is cleared in every execution, also when a creation fails
  inside the loop. In the example shop, when the order for seller1 is created and the
  creation of its order items throws, the run ends in the \<open>catch\<close> block: one order
  without items is left, and both cart rows of the buyer are still there.
\<close>

theorem C3_counterexample:
  "fst (handlePlaceOrder buyer shop_cartItems ''12 Lake Road'' ''5550100'' online flaky_shop)
     = Failed StoreError \<and>
   au_id buyer = ''buyer1'' \<and>
   map cart_userId
     (cart_tbl (snd (handlePlaceOrder buyer shop_cartItems ''12 Lake Road'' ''5550100'' online flaky_shop)))
     = [''buyer1'', ''buyer1''] \<and>
   cart_tbl (snd (handlePlaceOrder buyer shop_cartItems ''12 Lake Road'' ''5550100'' online flaky_shop))
     = cart_tbl flaky_shop \<and>
   map order_totalAmount
     (orders_tbl (snd (handlePlaceOrder buyer shop_cartItems ''12 Lake Road'' ''5550100'' online flaky_shop)))
     = [200] \<and>
   orderItems_tbl (snd (handlePlaceOrder buyer shop_cartItems ''12 Lake Road'' ''5550100'' online flaky_shop))
     = []"
  by (simp add: flaky_shop_def shop_cartItems_eq handlePlaceOrder_def line_sellerId_def object_prototype_keys_def
      object_entries_def is_array_index_def is_digit_def store_ops demo new_order_def orderTotal_def
      line_price_def CartItem.extend_def Let_def)

text \<open>
  Claim C3, as the code has it. The cart is cleared only at the end of a run that got
  through the whole loop: a run that ends successfully has deleted every cart row of the
  buyer and no other row; a run that returns early or ends in the \<open>catch\<close> block
  leaves the cart exactly as it was.
\<close>

theorem C3_cart_cleared_only_on_success:
  "handlePlaceOrder user cartItems address phone paymentMethod s = (r, s') \<Longrightarrow>
     cart_tbl s' =
       (if r = Done then filter (\<lambda>c. cart_userId c \<noteq> au_id user) (cart_tbl s) else cart_tbl s)"
  by (rule handlePlaceOrder_cart)

text \<open>The example checkout empties the cart.\<close>

theorem C3_cart_cleared_only_on_success_witness:
  "handlePlaceOrder buyer shop_cartItems ''12 Lake Road'' ''5550100'' online shop = (Done, shop_after) \<and>
   cart_tbl shop = [rowA, rowB] \<and> cart_tbl shop_after = []"
proof -
  have "cart_tbl shop = [rowA, rowB]" by (simp add: shop_def)
  moreover have "filter (\<lambda>c. cart_userId c \<noteq> au_id buyer) [rowA, rowB] = []"
    by (simp add: rowA_def rowB_def buyer_def)
  ultimately show ?thesis
    using C3_cart_cleared_only_on_success [OF shop_run] shop_run by simp
qed

subsection \<open>Cart lines without a seller\<close>

text \<open>
  Claim C9. With address and phone given, no store call throwing and no seller id that
  names a property of \<open>Object.prototype\<close>, handlePlaceOrder ends successfully; it creates
  orders for exactly the seller ids the lines resolve to, and order items for exactly
  the lines that resolve to a seller id, so a line without one yields no order and no
  order item; and afterwards no cart row of the buyer is left, that line's row included.
\<close>

theorem C9_unresolved_lines_dropped:
  assumes "address \<noteq> []" "phone \<noteq> []"
    and "True \<notin> set (faults s)"
    and "\<forall>k \<in> seller_ids cartItems. k \<notin> set object_prototype_keys"
  shows "\<exists>s'. handlePlaceOrder user cartItems address phone paymentMethod s = (Done, s') \<and>
           set (map order_sellerId (orders_created s s')) = seller_ids cartItems \<and>
           length (orders_created s s') = card (seller_ids cartItems) \<and>
           mset (map line_of_item (orderItems_created s s'))
             = mset (map line_of_cart (filter (\<lambda>l. line_sellerId l \<noteq> None) cartItems)) \<and>
           (\<forall>c \<in> set (cart_tbl s'). cart_userId c \<noteq> au_id user)"
proof -
  from handlePlaceOrder_ok [OF assms] obtain s' where
    run: "handlePlaceOrder user cartItems address phone paymentMethod s = (Done, s')" by blast
  from handlePlaceOrder_Done [OF run] obtain obj where
    g: "group_items cartItems [] = Inr obj" and
    o: "orders_tbl s' = orders_tbl s
          @ map fst (created user phone address paymentMethod (id_gen s) (next_id s) (object_entries obj))" and
    i: "orderItems_tbl s' = orderItems_tbl s
          @ concat (map snd (created user phone address paymentMethod (id_gen s) (next_id s) (object_entries obj)))" and
    c: "cart_tbl s' = filter (\<lambda>c. cart_userId c \<noteq> au_id user) (cart_tbl s)"
    by blast
  define es where "es = object_entries obj"
  define cr where "cr = created user phone address paymentMethod (id_gen s) (next_id s) es"
  have oc: "orders_created s s' = map fst cr"
    using o by (simp add: orders_created_def cr_def es_def)
  have ic: "orderItems_created s s' = concat (map snd cr)"
    using i by (simp add: orderItems_created_def cr_def es_def)
  note pe = placed_entries [OF g, folded es_def]
  have sellers: "map order_sellerId (orders_created s s') = map fst es"
    using created_sellers [of user phone address paymentMethod "id_gen s" "next_id s" es]
    by (simp add: oc cr_def)
  have "map line_of_item (orderItems_created s s') = map line_of_cart (concat (map snd es))"
    unfolding ic cr_def by (rule created_lines)
  then have "mset (map line_of_item (orderItems_created s s'))
               = image_mset line_of_cart (mset (concat (map snd es)))" by simp
  then have lines: "mset (map line_of_item (orderItems_created s s'))
      = mset (map line_of_cart (filter (\<lambda>l. line_sellerId l \<noteq> None) cartItems))"
    unfolding pe(4) by simp
  have "length (orders_created s s') = card (seller_ids cartItems)"
    using pe(3) by (simp add: oc cr_def)
  moreover have "set (map order_sellerId (orders_created s s')) = seller_ids cartItems"
    using pe(1) sellers by simp
  ultimately show ?thesis using run lines c by auto
qed

text \<open>
  A cart with a row for product C, which the store no longer has: loadCart gives the
  line no product, the checkout succeeds with one order for product A, and the cart is
  empty afterwards.
\<close>

theorem C9_unresolved_lines_dropped_witness:
  "map line_sellerId stale_cartItems = [Some ''seller1'', None] \<and>
   True \<notin> set (faults stale_shop) \<and>
   map cart_id (cart_tbl stale_shop) = [''cartA'', ''cartC''] \<and>
   (\<exists>s'. handlePlaceOrder buyer stale_cartItems ''12 Lake Road'' ''5550100'' online stale_shop = (Done, s') \<and>
      map order_sellerId (orders_created stale_shop s') = [''seller1''] \<and>
      map line_of_item (orderItems_created stale_shop s') = [(''productA'', 2, 100)] \<and>
      cart_tbl s' = [])"
proof -
  have a: "''12 Lake Road'' \<noteq> []" "''5550100'' \<noteq> []" by simp_all
  have f: "True \<notin> set (faults stale_shop)" by (simp add: stale_shop_def shop_def)
  have k: "\<forall>k \<in> seller_ids stale_cartItems. k \<notin> set object_prototype_keys" by code_simp
  from C9_unresolved_lines_dropped [OF a f k, of buyer online] obtain s' where
    run: "handlePlaceOrder buyer stale_cartItems ''12 Lake Road'' ''5550100'' online stale_shop = (Done, s')"
    by blast
  have s': "s' = snd (handlePlaceOrder buyer stale_cartItems ''12 Lake Road'' ''5550100'' online stale_shop)"
    using run by simp
  have "map order_sellerId (orders_created stale_shop s') = [''seller1'']" unfolding s' by code_simp
  moreover have "map line_of_item (orderItems_created stale_shop s') = [(''productA'', 2, 100)]"
    unfolding s' by code_simp
  moreover have "cart_tbl s' = []" unfolding s' by code_simp
  moreover have "map line_sellerId stale_cartItems = [Some ''seller1'', None]" by code_simp
  moreover have "map cart_id (cart_tbl stale_shop) = [''cartA'', ''cartC'']"
    by (simp add: stale_shop_def shop_def rowA_def rowGone_def)
  ultimately show ?thesis using run f by simp
qed

subsection \<open>What order placement leaves alone\<close>

text \<open>
  Claim C10. Whatever its outcome, handlePlaceOrder leaves the products, sellers and
  reviews collections as they were: no stock quantity or availability flag changes, and
  no seller's totalOrders or totalEarnings changes.
\<close>

theorem C10_products_and_sellers_untouched:
  "products_tbl (snd (handlePlaceOrder user cartItems address phone paymentMethod s)) = products_tbl s \<and>
   sellers_tbl (snd (handlePlaceOrder user cartItems address phone paymentMethod s)) = sellers_tbl s \<and>
   reviews_tbl (snd (handlePlaceOrder user cartItems address phone paymentMethod s)) = reviews_tbl s"
  using handlePlaceOrder_frame [of user cartItems address phone paymentMethod s] 
  by (cases "handlePlaceOrder user cartItems address phone paymentMethod s") simp

text \<open>The example checkout.\<close>

theorem C10_products_and_sellers_untouched_witness:
  "products_tbl shop_after = [productA, productB] \<and> sellers_tbl shop_after = [seller1, seller2]"
  using C10_products_and_sellers_untouched [of buyer shop_cartItems "''12 Lake Road''" "''5550100''" online shop]
  by (simp add: shop_after_def shop_def)

section \<open>Order status\<close>

text \<open>
  Claim C4 says that a status change of a delivered or cancelled order is rejected.
  updateOrderStatus has no such check. The dashboard keeps its own copy of the orders;
  a card that still shows the order as pending offers the button that calls
  \<open>updateOrderStatus(order.id, 'confirmed')\<close>. Called on the stored delivered order,
  that call succeeds and the stored status becomes \<open>confirmed\<close>.
\<close>

theorem C4_counterexample:
  "order_status delivered_order = delivered \<and>
   orders_tbl dashboard = [delivered_order] \<and>
   status_buttons stale_card = [(''order1'', confirmed)] \<and>
   updateOrderStatus ''order1'' confirmed dashboard
     = (Done, dashboard\<lparr>orders_tbl := [delivered_order\<lparr>order_status := confirmed\<rparr>]\<rparr>)"
  by (simp add: updateOrderStatus_def db_orders_update_def db_call_def dashboard_def shop_def
      delivered_order_def stale_card_def status_buttons_def)

text \<open>
  Claim C4, as the code has it. The seller dashboard renders no status button on an
  order exactly when its status is delivered or cancelled; that is the only gate.
  updateOrderStatus itself does not look at the current status: when the order is in
  the store and the store call does not throw, it sets the status of the order with the
  given id to the given status, whatever the status was. For an id that is not in the
  store the call ends in the \<open>catch\<close> block and no order changes.
\<close>

theorem C4_terminal_orders_offer_no_button:
  "(status_buttons order = [] \<longleftrightarrow> order_status order = delivered \<or> order_status order = cancelled) \<and>
   (True \<notin> set (faults s) \<longrightarrow> orderId \<in> order_id ` set (orders_tbl s) \<longrightarrow>
      (\<exists>s'. updateOrderStatus orderId newStatus s = (Done, s') \<and>
            orders_tbl s' =
              map (\<lambda>x. if order_id x = orderId then x\<lparr>order_status := newStatus\<rparr> else x)
                (orders_tbl s))) \<and>
   (orderId \<notin> order_id ` set (orders_tbl s) \<longrightarrow>
      fst (updateOrderStatus orderId newStatus s) = Failed StoreError \<and>
      orders_tbl (snd (updateOrderStatus orderId newStatus s)) = orders_tbl s)"
proof -
  have buttons:
    "status_buttons order = [] \<longleftrightarrow> order_status order = delivered \<or> order_status order = cancelled"
    by (cases "order_status order") (simp_all add: status_buttons_def)
  have stored: "\<exists>s'. updateOrderStatus orderId newStatus s = (Done, s') \<and>
            orders_tbl s' =
              map (\<lambda>x. if order_id x = orderId then x\<lparr>order_status := newStatus\<rparr> else x)
                (orders_tbl s)"
    if "True \<notin> set (faults s)" "orderId \<in> order_id ` set (orders_tbl s)"
    using that by (simp add: updateOrderStatus_def db_orders_update_def db_call_ok)
  have missing: "fst (updateOrderStatus orderId newStatus s) = Failed StoreError \<and>
      orders_tbl (snd (updateOrderStatus orderId newStatus s)) = orders_tbl s"
    if "orderId \<notin> order_id ` set (orders_tbl s)"
    using that
    by (auto simp: updateOrderStatus_def db_orders_update_def db_call_def
        split: list.splits bool.splits)
  from buttons stored missing show ?thesis by blast
qed

text \<open>The delivered example order, and an id the store does not have.\<close>

theorem C4_terminal_orders_offer_no_button_witness:
  "order_status delivered_order = delivered \<and> status_buttons delivered_order = [] \<and>
   True \<notin> set (faults dashboard) \<and>
   map order_id (orders_tbl dashboard) = [''order1''] \<and>
   (\<exists>s'. updateOrderStatus ''order1'' preparing dashboard = (Done, s') \<and>
         map order_status (orders_tbl s') = [preparing]) \<and>
   fst (updateOrderStatus ''order9'' preparing dashboard) = Failed StoreError"
proof -
  have st: "order_status delivered_order = delivered" by (simp add: delivered_order_def)
  have f: "True \<notin> set (faults dashboard)" by (simp add: dashboard_def shop_def)
  have o: "orders_tbl dashboard = [delivered_order]" "order_id delivered_order = ''order1''"
    by (simp_all add: dashboard_def delivered_order_def)
  from C4_terminal_orders_offer_no_button [of delivered_order dashboard "''order1''" preparing]
    C4_terminal_orders_offer_no_button [of delivered_order dashboard "''order9''" preparing] st f o
  show ?thesis by auto
qed

section \<open>Adding to the cart\<close>

lemma handleAddToCart_first:
  assumes "True \<notin> set (faults s)" "au_id user \<noteq> []" "in_cart user product s = []"
  shows "\<exists>s1 row. handleAddToCart True (Some product) q (Inr (Some user)) s = (Done, s1) \<and>
           True \<notin> set (faults s1) \<and> in_cart user product s1 = [row] \<and> cart_quantity row = q"
proof -
  let ?s0 = "s\<lparr>faults := tl (faults s)\<rparr>"
  have f0: "True \<notin> set (faults ?s0)" using assms(1) by (simp add: notin_tl)
  show ?thesis
    using assms f0
    by (simp add: handleAddToCart_def in_cart_def db_cart_list_ok db_cart_create_ok notin_tl)
qed

lemma handleAddToCart_again:
  assumes "True \<notin> set (faults s)" "au_id user \<noteq> []" "in_cart user product s = [row]"
  shows "\<exists>s1 row1. handleAddToCart True (Some product) q (Inr (Some user)) s = (Done, s1) \<and>
           True \<notin> set (faults s1) \<and> in_cart user product s1 = [row1] \<and>
           cart_quantity row1 = cart_quantity row + q"
proof -
  let ?P = "\<lambda>c. cart_userId c = au_id user \<and> cart_productId c = product_id product"
  let ?f = "\<lambda>c. if cart_id c = cart_id row then c\<lparr>cart_quantity := cart_quantity row + q\<rparr> else c"
  let ?s0 = "s\<lparr>faults := tl (faults s)\<rparr>"
  have f0: "True \<notin> set (faults ?s0)" using assms(1) by (simp add: notin_tl)
  have "filter ?P (map ?f (cart_tbl s)) = map ?f (filter ?P (cart_tbl s))"
    by (induction "cart_tbl s") (auto simp: filter_map comp_def intro: filter_cong)
  then have "filter ?P (map ?f (cart_tbl s)) = [row\<lparr>cart_quantity := cart_quantity row + q\<rparr>]"
    using assms(3) by (simp add: in_cart_def)
  moreover have "row \<in> set (filter ?P (cart_tbl s))"
    using assms(3) by (simp add: in_cart_def)
  then have "cart_id row \<in> cart_id ` set (cart_tbl ?s0)" by simp
  ultimately show ?thesis
    using assms f0
    by (simp add: handleAddToCart_def in_cart_def db_cart_list_ok db_cart_update_ok notin_tl)
qed

lemma addToCart_calls_again:
  assumes "True \<notin> set (faults s)" "au_id user \<noteq> []" "in_cart user product s = [row]"
  shows "\<exists>s' row'. addToCart_calls user product qs s = (replicate (length qs) Done, s') \<and>
           in_cart user product s' = [row'] \<and> cart_quantity row' = cart_quantity row + sum_list qs"
  using assms
proof (induction qs arbitrary: s row)
  case Nil
  then show ?case by simp
next
  case (Cons q qs)
  from handleAddToCart_again [OF Cons.prems, of q] obtain s1 row1 where
    h: "handleAddToCart True (Some product) q (Inr (Some user)) s = (Done, s1)"
       "True \<notin> set (faults s1)" "in_cart user product s1 = [row1]"
       "cart_quantity row1 = cart_quantity row + q" by blast
  from Cons.IH [OF h(2) Cons.prems(2) h(3)] obtain s' row' where
    "addToCart_calls user product qs s1 = (replicate (length qs) Done, s')"
    "in_cart user product s' = [row']" "cart_quantity row' = cart_quantity row1 + sum_list qs"
    by blast
  with h show ?case by simp
qed

text \<open>
  Claim C6. Take a store with at most one cart row for a (user, product) pair. Any
  non-empty sequence of handleAddToCart calls by that signed-in user for that product
  with quantities \<open>qs\<close>, none of whose store calls throws, succeeds at every call and
  leaves exactly one cart row for the pair; its quantity is the sum of \<open>qs\<close>, added to
  the quantity of the row that was there before, if there was one. Starting without a row
  for the pair, the quantity is the sum of \<open>qs\<close>.
\<close>

theorem C6_one_row_with_summed_quantity:
  assumes ok: "True \<notin> set (faults s)" and signed_in: "au_id user \<noteq> []" and calls: "qs \<noteq> []"
    and before: "length (in_cart user product s) \<le> 1"
  shows "\<exists>s' row. addToCart_calls user product qs s = (replicate (length qs) Done, s') \<and>
           in_cart user product s' = [row] \<and>
           cart_quantity row = sum_list (map cart_quantity (in_cart user product s)) + sum_list qs"
proof (cases "in_cart user product s")
  case Nil
  from calls obtain q qs' where qs: "qs = q # qs'" by (cases qs) auto
  from handleAddToCart_first [OF ok signed_in Nil, of q] obtain s1 row1 where
    h: "handleAddToCart True (Some product) q (Inr (Some user)) s = (Done, s1)"
       "True \<notin> set (faults s1)" "in_cart user product s1 = [row1]" "cart_quantity row1 = q"
    by blast
  from addToCart_calls_again [OF h(2) signed_in h(3), of qs'] obtain s' row' where
    "addToCart_calls user product qs' s1 = (replicate (length qs') Done, s')"
    "in_cart user product s' = [row']" "cart_quantity row' = cart_quantity row1 + sum_list qs'"
    by blast
  with h Nil show ?thesis by (simp add: qs)
next
  case (Cons row0 others)
  with before have one: "in_cart user product s = [row0]" by simp
  from addToCart_calls_again [OF ok signed_in one, of qs] show ?thesis by (simp add: one)
qed

text \<open>A second buyer adds product A three times: 2 + 1 + 4 = 7.\<close>

theorem C6_one_row_with_summed_quantity_witness:
  "True \<notin> set (faults shop) \<and> au_id guest \<noteq> [] \<and> [2, 1, 4] \<noteq> ([] :: nat list) \<and>
   in_cart guest productA shop = [] \<and>
   (\<exists>s' row. addToCart_calls guest productA [2, 1, 4] shop = ([Done, Done, Done], s') \<and>
      in_cart guest productA s' = [row] \<and> cart_quantity row = 7)"
proof -
  have f: "True \<notin> set (faults shop)" by (simp add: shop_def)
  have u: "au_id guest \<noteq> []" by (simp add: guest_def)
  have q: "[2, 1, 4] \<noteq> ([] :: nat list)" by simp
  have e: "in_cart guest productA shop = []"
    by (simp add: in_cart_def guest_def shop_def rowA_def rowB_def)
  then have l: "length (in_cart guest productA shop) \<le> 1" by simp
  from C6_one_row_with_summed_quantity [OF f u q l] f u q e
  show ?thesis by (simp add: numeral_3_eq_3)
qed

section \<open>Reviews\<close>


lemma submit_items_sellers:
  "submit_items user order reviews items s = (r, s') \<Longrightarrow> sellers_tbl s' = sellers_tbl s"
proof (induction items arbitrary: s)
  case Nil
  then show ?case by simp
next
  case (Cons item rest)
  show ?case
  proof (cases "reviews (item_productId item)")
    case None
    with Cons.prems show ?thesis by simp
  next
    case (Some review)
    obtain b s1 where c: "db_reviews_create (new_review user order item review) s = (b, s1)"
      by (cases "db_reviews_create (new_review user order item review) s")
    obtain g s2 where p: "db_products_get (item_productId item) s1 = (g, s2)"
      by (cases "db_products_get (item_productId item) s1")
    note k = db_reviews_create_cases [OF c] db_products_get_cases [OF p]
    show ?thesis
    proof (cases b)
      case False
      with Cons.prems Some c k show ?thesis by auto
    next
      case True
      show ?thesis
      proof (cases g)
        case (Inl e)
        with Cons.prems Some c p k True show ?thesis by auto
      next
        case (Inr found)
        show ?thesis
        proof (cases found)
          case None
          with Cons.prems Some c p True Inr have "submit_items user order reviews rest s2 = (r, s')"
            by simp
          from Cons.IH [OF this] k show ?thesis by simp
        next
          case (Some product)
          obtain b3 s3 where
            u: "db_products_update (item_productId item) (rate_product product (fst review)) s2 = (b3, s3)"
            by (cases "db_products_update (item_productId item) (rate_product product (fst review)) s2")
          note k3 = db_products_update_cases [OF u]
          show ?thesis
          proof (cases b3)
            case False
            with Cons.prems \<open>reviews (item_productId item) = Some review\<close> c p True Inr Some u k k3
            show ?thesis by auto
          next
            case b3: True
            with Cons.prems \<open>reviews (item_productId item) = Some review\<close> c p True Inr Some u
            have "submit_items user order reviews rest s3 = (r, s')" by simp
            from Cons.IH [OF this] k k3 show ?thesis by simp
          qed
        qed
      qed
    qed
  qed
qed



text \<open>
  Claim C7. For an order whose seller is in the store, handleSubmit never changes any
  seller's ratingAverage, and a run that ends successfully sets the seller's
  totalReviews to its previous value plus the number of items of the order, and changes
  nothing else in the sellers collection.
\<close>

theorem C7_seller_totalReviews_by_item_count:
  assumes run: "handleSubmit (Some order) (Some user) reviews s = (r, s')"
    and found: "find (\<lambda>x. seller_id x = order_sellerId order) (sellers_tbl s) = Some seller"
  shows "map seller_ratingAverage (sellers_tbl s') = map seller_ratingAverage (sellers_tbl s) \<and>
         (r = Done \<longrightarrow>
            sellers_tbl s' =
              map (\<lambda>x. if seller_id x = order_sellerId order
                        then x\<lparr>seller_totalReviews :=
                                 seller_totalReviews seller + length (items_or_empty order)\<rparr>
                        else x) (sellers_tbl s))"
proof -
  obtain e s1 where l: "submit_items user order reviews (items_or_empty order) s = (e, s1)"
    by (cases "submit_items user order reviews (items_or_empty order) s")
  note k1 = submit_items_sellers [OF l]
  show ?thesis
  proof (cases e)
    case (Some err)
    with run l k1 show ?thesis by (auto simp: handleSubmit_def)
  next
    case None
    obtain g s2 where sg: "db_sellers_get (order_sellerId order) s1 = (g, s2)"
      by (cases "db_sellers_get (order_sellerId order) s1")
    note k2 = db_sellers_get_cases [OF sg]
    show ?thesis
    proof (cases g)
      case (Inl err)
      with run l None sg k1 k2 show ?thesis by (auto simp: handleSubmit_def)
    next
      case (Inr got)
      with k2 k1 found have got: "got = Some seller" by simp
      let ?f = "\<lambda>x. x\<lparr>seller_totalReviews := seller_totalReviews seller + length (items_or_empty order)\<rparr>"
      obtain b s3 where su: "db_sellers_update (order_sellerId order) ?f s2 = (b, s3)"
        by (cases "db_sellers_update (order_sellerId order) ?f s2")
      note k3 = db_sellers_update_cases [OF su]
      have s': "s' = s3" and r: "r = (if b then Done else Failed StoreError)"
        using run l None sg Inr got su by (auto simp: handleSubmit_def Let_def split: bool.splits)
      have "map seller_ratingAverage (sellers_tbl s3) = map seller_ratingAverage (sellers_tbl s)"
        using k3 k2 k1 by (auto simp: comp_def)
      moreover have "b \<longrightarrow> sellers_tbl s3 =
              map (\<lambda>x. if seller_id x = order_sellerId order then ?f x else x) (sellers_tbl s)"
        using k3 k2 k1 by simp
      ultimately show ?thesis using s' r by simp
    qed
  qed
qed

text \<open>The review of the delivered example order: seller1 goes from 2 to 3 reviews and
  keeps its average.\<close>

theorem C7_seller_totalReviews_by_item_count_witness:
  "handleSubmit (Some review_order) (Some buyer) ratings dashboard = (Done, reviewed) \<and>
   find (\<lambda>x. seller_id x = order_sellerId review_order) (sellers_tbl dashboard) = Some seller1 \<and>
   map seller_totalReviews (sellers_tbl dashboard) = [2, 0] \<and>
   map seller_totalReviews (sellers_tbl reviewed) = [3, 0] \<and>
   map seller_ratingAverage (sellers_tbl reviewed) = map seller_ratingAverage (sellers_tbl dashboard)"
proof -
  have "fst (handleSubmit (Some review_order) (Some buyer) ratings dashboard) = Done" by code_simp
  then have run: "handleSubmit (Some review_order) (Some buyer) ratings dashboard = (Done, reviewed)"
    by (simp add: reviewed_def prod_eq_iff)
  have sid: "order_sellerId review_order = ''seller1''"
    by (simp add: review_order_def Order.extend_def delivered_order_def)
  have tbl: "sellers_tbl dashboard = [seller1, seller2]" by (simp add: dashboard_def shop_def)
  have found: "find (\<lambda>x. seller_id x = order_sellerId review_order) (sellers_tbl dashboard) = Some seller1"
    by (simp add: sid tbl seller1_def)
  have n: "length (items_or_empty review_order) = 1"
    by (simp add: items_or_empty_def review_order_def Order.extend_def)
  from C7_seller_totalReviews_by_item_count [OF run found] run found
  show ?thesis by (simp add: sid tbl n seller1_def seller2_def)
qed

end
